theory Spec2Isabelle
  imports Complex_Main
begin

section \<open>Numbers and arrays\<close>

text \<open>
  The battery charge model \<^verbatim>\<open>LiNiMnCo_charge.py\<close> computes with numpy arrays of 64-bit
  floats. A float is modelled as a real number, one of the two infinities, or NaN. The
  arithmetic is the IEEE one with overflow and without rounding: a result whose exact value
  reaches \<open>2 ^ 1024 - 2 ^ 970\<close> in size, where binary64 rounds to an infinity, is that
  infinity, and any other finite result is the exact real result (no rounding error, no
  underflow to zero). Zero carries no sign, so a non-zero number divided by zero is the
  infinity with the sign of the dividend. Comparisons with NaN are false.
\<close>

datatype fl = is_fin: Fin real | PInf | MInf | NaN

definition overflow_threshold :: real where
  "overflow_threshold = 2 ^ 1024 - 2 ^ 970"

definition ovf :: "real \<Rightarrow> fl" where
  "ovf r = (if overflow_threshold \<le> r then PInf
            else if r \<le> - overflow_threshold then MInf
            else Fin r)"

instantiation fl :: "{zero, one, plus, uminus, minus, times, inverse, abs, ord, power}"
begin

definition zero_fl :: fl where "zero_fl = Fin 0"

definition one_fl :: fl where "one_fl = Fin 1"

fun uminus_fl :: "fl \<Rightarrow> fl" where
  "uminus_fl (Fin x) = Fin (- x)"
| "uminus_fl PInf = MInf"
| "uminus_fl MInf = PInf"
| "uminus_fl NaN = NaN"

fun plus_fl :: "fl \<Rightarrow> fl \<Rightarrow> fl" where
  "plus_fl (Fin x) (Fin y) = ovf (x + y)"
| "plus_fl NaN b = NaN"
| "plus_fl a NaN = NaN"
| "plus_fl PInf MInf = NaN"
| "plus_fl MInf PInf = NaN"
| "plus_fl PInf b = PInf"
| "plus_fl a PInf = PInf"
| "plus_fl MInf b = MInf"
| "plus_fl a MInf = MInf"

definition minus_fl :: "fl \<Rightarrow> fl \<Rightarrow> fl" where
  "minus_fl a b = a + (- b)"

fun times_fl :: "fl \<Rightarrow> fl \<Rightarrow> fl" where
  "times_fl (Fin x) (Fin y) = ovf (x * y)"
| "times_fl NaN b = NaN"
| "times_fl a NaN = NaN"
| "times_fl PInf (Fin y) = (if y = 0 then NaN else if 0 < y then PInf else MInf)"
| "times_fl MInf (Fin y) = (if y = 0 then NaN else if 0 < y then MInf else PInf)"
| "times_fl (Fin x) PInf = (if x = 0 then NaN else if 0 < x then PInf else MInf)"
| "times_fl (Fin x) MInf = (if x = 0 then NaN else if 0 < x then MInf else PInf)"
| "times_fl PInf PInf = PInf"
| "times_fl PInf MInf = MInf"
| "times_fl MInf PInf = MInf"
| "times_fl MInf MInf = PInf"

fun divide_fl :: "fl \<Rightarrow> fl \<Rightarrow> fl" where
  "divide_fl (Fin x) (Fin y) =
     (if y \<noteq> 0 then ovf (x / y) else if x = 0 then NaN else if 0 < x then PInf else MInf)"
| "divide_fl NaN b = NaN"
| "divide_fl a NaN = NaN"
| "divide_fl (Fin x) PInf = Fin 0"
| "divide_fl (Fin x) MInf = Fin 0"
| "divide_fl PInf (Fin y) = (if 0 \<le> y then PInf else MInf)"
| "divide_fl MInf (Fin y) = (if 0 \<le> y then MInf else PInf)"
| "divide_fl PInf PInf = NaN"
| "divide_fl PInf MInf = NaN"
| "divide_fl MInf PInf = NaN"
| "divide_fl MInf MInf = NaN"

fun inverse_fl :: "fl \<Rightarrow> fl" where
  "inverse_fl (Fin x) = (if x \<noteq> 0 then ovf (1 / x) else PInf)"
| "inverse_fl PInf = Fin 0"
| "inverse_fl MInf = Fin 0"
| "inverse_fl NaN = NaN"

fun abs_fl :: "fl \<Rightarrow> fl" where
  "abs_fl (Fin x) = Fin \<bar>x\<bar>"
| "abs_fl PInf = PInf"
| "abs_fl MInf = PInf"
| "abs_fl NaN = NaN"

fun less_fl :: "fl \<Rightarrow> fl \<Rightarrow> bool" where
  "less_fl (Fin x) (Fin y) = (x < y)"
| "less_fl NaN b = False"
| "less_fl a NaN = False"
| "less_fl a MInf = False"
| "less_fl PInf b = False"
| "less_fl MInf b = True"
| "less_fl a PInf = True"

fun less_eq_fl :: "fl \<Rightarrow> fl \<Rightarrow> bool" where
  "less_eq_fl (Fin x) (Fin y) = (x \<le> y)"
| "less_eq_fl NaN b = False"
| "less_eq_fl a NaN = False"
| "less_eq_fl MInf b = True"
| "less_eq_fl a PInf = True"
| "less_eq_fl a MInf = False"
| "less_eq_fl PInf b = False"

instance ..

end

text \<open>A Python \<^verbatim>\<open>int\<close> that meets a float in an arithmetic operation is converted.\<close>

definition of_py_int :: "int \<Rightarrow> fl" where
  "of_py_int n = Fin (of_int n)"

text \<open>The truth value of a float (\<^verbatim>\<open>bool(x)\<close>): zero is false, everything else, NaN too,
  is true. A Python \<^verbatim>\<open>bool\<close> in a comparison with a number counts as 1 or 0.\<close>

definition py_bool :: "fl \<Rightarrow> bool" where
  "py_bool x = (x \<noteq> Fin 0)"

definition of_py_bool :: "bool \<Rightarrow> fl" where
  "of_py_bool b = (if b then Fin 1 else Fin 0)"

definition np_isnan :: "fl \<Rightarrow> bool" where
  "np_isnan x = (x = NaN)"

text \<open>The elementary functions of numpy, with their values at the infinities and outside
  their real domain. \<open>np_power\<close> is given for the exponents the source uses, which are
  positive and not integers.\<close>

fun np_sqrt :: "fl \<Rightarrow> fl" where
  "np_sqrt (Fin x) = (if x < 0 then NaN else Fin (sqrt x))"
| "np_sqrt PInf = PInf"
| "np_sqrt MInf = NaN"
| "np_sqrt NaN = NaN"

fun np_exp :: "fl \<Rightarrow> fl" where
  "np_exp (Fin x) = ovf (exp x)"
| "np_exp PInf = PInf"
| "np_exp MInf = Fin 0"
| "np_exp NaN = NaN"

fun np_log :: "fl \<Rightarrow> fl" where
  "np_log (Fin x) = (if x < 0 then NaN else if x = 0 then MInf else Fin (ln x))"
| "np_log PInf = PInf"
| "np_log MInf = NaN"
| "np_log NaN = NaN"

fun np_power :: "fl \<Rightarrow> real \<Rightarrow> fl" where
  "np_power (Fin x) y = (if x < 0 then NaN else ovf (x powr y))"
| "np_power PInf y = PInf"
| "np_power MInf y = PInf"
| "np_power NaN y = NaN"

text \<open>
  A column array of shape \<open>(N, 1)\<close> is the list of its \<open>N\<close> entries and a matrix is the list
  of its rows. An operation between two arrays works entry by entry (\<open>map2\<close>), one between
  an array and a scalar on every entry (\<open>map\<close>).
\<close>

definition map3 :: "('a \<Rightarrow> 'b \<Rightarrow> 'c \<Rightarrow> 'd) \<Rightarrow> 'a list \<Rightarrow> 'b list \<Rightarrow> 'c list \<Rightarrow> 'd list" where
  "map3 f xs ys zs = map (\<lambda>(x, y, z). f x y z) (zip xs (zip ys zs))"

primrec fsum :: "fl list \<Rightarrow> fl" where
  "fsum [] = Fin 0"
| "fsum (x # xs) = x + fsum xs"

text \<open>\<^verbatim>\<open>np.dot(I, v)\<close> of a matrix and a column.\<close>

definition np_dot :: "fl list list \<Rightarrow> fl list \<Rightarrow> fl list" where
  "np_dot I v = map (\<lambda>row. fsum (map2 (*) row v)) I"

text \<open>The mask assignments \<^verbatim>\<open>a[a < c] = c\<close> and \<^verbatim>\<open>a[a > c] = c\<close>. An entry that is NaN
  satisfies neither mask and stays.\<close>

definition set_below :: "fl \<Rightarrow> fl list \<Rightarrow> fl list" where
  "set_below c a = map (\<lambda>x. if x < c then c else x) a"

definition set_above :: "fl \<Rightarrow> fl list \<Rightarrow> fl list" where
  "set_above c a = map (\<lambda>x. if c < x then c else x) a"

text \<open>\<^verbatim>\<open>np.max\<close> of a non-empty array: the largest entry, and NaN as soon as one entry is
  NaN.\<close>

definition fmax :: "fl \<Rightarrow> fl \<Rightarrow> fl" where
  "fmax a b = (if a = NaN \<or> b = NaN then NaN else if a < b then b else a)"

definition np_max :: "fl list \<Rightarrow> fl" where
  "np_max a = foldl fmax (hd a) (tl a)"

text \<open>\<^verbatim>\<open>a.any()\<close>: some entry is true. Python's \<^verbatim>\<open>all\<close> over the rows of a column: every
  entry is true.\<close>

definition np_any :: "fl list \<Rightarrow> bool" where
  "np_any a = list_ex py_bool a"

definition py_all :: "fl list \<Rightarrow> bool" where
  "py_all a = list_all py_bool a"

text \<open>\<^verbatim>\<open>scipy.integrate.cumtrapz(y, x = x)\<close>: the running sums of the trapezoid areas
  \<open>(x[k+1] - x[k]) * (y[k+1] + y[k]) / 2\<close>, one entry fewer than \<open>y\<close>.\<close>

definition np_diff :: "fl list \<Rightarrow> fl list" where
  "np_diff x = map2 (-) (tl x) (butlast x)"

primrec cumsum_from :: "fl \<Rightarrow> fl list \<Rightarrow> fl list" where
  "cumsum_from acc [] = []"
| "cumsum_from acc (a # as) = (acc + a) # cumsum_from (acc + a) as"

definition np_cumsum :: "fl list \<Rightarrow> fl list" where
  "np_cumsum a = (case a of [] \<Rightarrow> [] | x # xs \<Rightarrow> x # cumsum_from x xs)"

definition cumtrapz :: "fl list \<Rightarrow> fl list \<Rightarrow> fl list" where
  "cumtrapz y x =
     np_cumsum (map2 (\<lambda>d s. d * s / Fin 2) (np_diff x) (map2 (+) (tl y) (butlast y)))"

section \<open>The data of the battery charge model\<close>

text \<open>
  The \<^verbatim>\<open>battery\<close> object is a record. Its nested objects (\<^verbatim>\<open>battery.cell\<close>,
  \<^verbatim>\<open>battery.pack_config\<close>, \<^verbatim>\<open>battery.module_config\<close>, \<^verbatim>\<open>battery.cooling_fluid\<close>,
  \<^verbatim>\<open>battery.inputs\<close>) are records of their own, their fields prefixed with the name of
  the object. The function writes its outputs into the same object and returns it, so the
  record holds the fields it reads and the fields it writes. Every per-point quantity is a
  column array with one row per control point, the ambient temperature included (the
  source iterates over the Reynolds numbers computed from it).

  The source changes one of its input arrays in place, \<^verbatim>\<open>battery.cell_temperature\<close> (lines
  113-114). The field \<open>temperature_is_cell_temperature\<close> says whether \<^verbatim>\<open>battery.temperature\<close>
  is that same array object; the field \<open>temperature\<close> is then not read. All other arrays
  are objects of their own.
\<close>

record cell_data =
  cell_mass :: fl
  cell_electrode_area :: fl
  cell_specific_heat_capacity :: fl
  cell_surface_area :: fl
  cell_diameter :: fl
  cell_height :: fl

record pack_configuration =
  pack_series :: int
  pack_parallel :: int

record module_configuration =
  module_normal_count :: int
  module_parallel_count :: int
  module_normal_spacing :: fl
  module_parallel_spacing :: fl

record fluid =
  fluid_thermal_conductivity :: fl
  fluid_specific_heat_capacity :: fl
  fluid_discharge_air_cooling_flowspeed :: fl
  fluid_density :: fl
  fluid_kinematic_viscosity_fit :: "fl \<Rightarrow> fl"
  fluid_prandlt_number_fit :: "fl \<Rightarrow> fl"

record battery_inputs =
  inputs_current :: "fl list"
  inputs_power_in :: "fl list"

record battery =
  inputs :: battery_inputs
  cell :: cell_data
  heat_transfer_coefficient :: fl
  ambient_temperature :: "fl list"
  initial_thevenin_voltage :: fl
  temperature :: "fl list"
  cell_temperature :: "fl list"
  temperature_is_cell_temperature :: bool
  max_energy :: fl
  R_growth_factor :: fl
  current_energy :: "fl list"
  charge_throughput :: "fl list"
  discharge_performance_map_Voltage :: "fl list list \<Rightarrow> fl list list"
  pack_config :: pack_configuration
  module_config :: module_configuration
  cooling_fluid :: fluid
  pack_temperature :: "fl list"
  cell_joule_heat_fraction :: "fl list"
  cell_entropy_heat_fraction :: "fl list"
  resistive_losses :: "fl list"
  load_power :: "fl list"
  current :: "fl list"
  voltage_open_circuit :: "fl list"
  cell_voltage_open_circuit :: "fl list"
  cell_current :: "fl list"
  thevenin_voltage :: "fl list"
  cumulative_cell_charge_throughput :: "fl list"
  cell_charge_throughput :: "fl list"
  heat_energy_generated :: "fl list"
  internal_resistance :: "fl list"
  state_of_charge :: "fl list"
  depth_of_discharge :: "fl list"
  voltage_under_load :: "fl list"
  cell_voltage_under_load :: "fl list"

text \<open>\<^verbatim>\<open>numerics.time\<close>: the integration operator and column 0 of the control points.\<close>

record numerics =
  time_integrate :: "fl list list"
  time_control_points :: "fl list"

text \<open>
  Two names come from outside the source file and are parameters of the model:
  \<^verbatim>\<open>Units.hr\<close> of \<^verbatim>\<open>SUAVE.Core\<close>, and \<^verbatim>\<open>scipy.integrate.odeint\<close>, which takes the right-hand
  side \<open>f z t\<close>, the initial value and the times, and returns one row per time.
\<close>

record externals =
  Units_hr :: fl
  odeint :: "(fl list \<Rightarrow> fl \<Rightarrow> fl list) \<Rightarrow> fl \<Rightarrow> fl list \<Rightarrow> fl list list"

datatype py_error = IndexError | Unsupported_shape

section \<open>The Thevenin voltage\<close>

text \<open>\<^verbatim>\<open>model(z, t, I_cell, C_Th, R_Th)\<close>, the right-hand side of the Thevenin equation.\<close>

definition model :: "fl list \<Rightarrow> fl \<Rightarrow> fl \<Rightarrow> fl \<Rightarrow> fl \<Rightarrow> fl list" where
  "model z t I_cell C_Th R_Th = [I_cell / C_Th - (z ! 0) / (R_Th * C_Th)]"

text \<open>
  One pass of the loop of \<^verbatim>\<open>compute_thevenin_votlage\<close>: the equation is solved from
  \<open>V_th0\<close> over all the control points with the parameters of point \<open>i\<close>, and the entry
  \<^verbatim>\<open>z[1][0]\<close> of the solution is kept. Each index of the source that can be out of range
  is a branch.
\<close>

definition thevenin_point ::
  "externals \<Rightarrow> fl \<Rightarrow> fl list \<Rightarrow> fl list \<Rightarrow> fl list \<Rightarrow> fl list \<Rightarrow> nat \<Rightarrow> py_error + fl" where
  "thevenin_point ext V_th0 I_cell C_Th R_Th t i =
     (if length I_cell \<le> i \<or> length C_Th \<le> i \<or> length R_Th \<le> i then Inl IndexError
      else let z = odeint ext (\<lambda>z s. model z s (I_cell ! i) (C_Th ! i) (R_Th ! i)) V_th0 t
           in if length z \<le> 1 then Inl IndexError
              else if z ! 1 = [] then Inl IndexError
              else Inr (z ! 1 ! 0))"

fun thevenin_loop ::
  "externals \<Rightarrow> fl \<Rightarrow> fl list \<Rightarrow> fl list \<Rightarrow> fl list \<Rightarrow> fl list \<Rightarrow> nat list \<Rightarrow> py_error + fl list" where
  "thevenin_loop ext V_th0 I_cell C_Th R_Th t [] = Inr []"
| "thevenin_loop ext V_th0 I_cell C_Th R_Th t (i # is) =
     (case thevenin_point ext V_th0 I_cell C_Th R_Th t i of
        Inl e \<Rightarrow> Inl e
      | Inr v \<Rightarrow>
          (case thevenin_loop ext V_th0 I_cell C_Th R_Th t is of
             Inl e \<Rightarrow> Inl e
           | Inr vs \<Rightarrow> Inr (v # vs)))"

text \<open>\<^verbatim>\<open>compute_thevenin_votlage\<close>: entry 0 is \<open>V_th0\<close> (an IndexError when there is no
  control point), the entries \<open>1, \<dots>, n - 1\<close> come from the loop.\<close>

definition compute_thevenin_votlage ::
  "externals \<Rightarrow> fl \<Rightarrow> fl list \<Rightarrow> fl list \<Rightarrow> fl list \<Rightarrow> numerics \<Rightarrow> py_error + fl list" where
  "compute_thevenin_votlage ext V_th0 I_cell C_Th R_Th num =
     (let t = time_control_points num; n = length t
      in if n = 0 then Inl IndexError
         else (case thevenin_loop ext V_th0 I_cell C_Th R_Th t [1..<n] of
                 Inl e \<Rightarrow> Inl e
               | Inr xs \<Rightarrow> Inr (V_th0 # xs)))"

section \<open>The battery charge model, step by step\<close>

text \<open>
  Each local variable of \<^verbatim>\<open>LiNiMnCo_charge\<close> is a definition of the same name, a function
  of the battery \<open>b\<close> and the numerics \<open>num\<close>. Where the source assigns a variable twice,
  the first value has a name of its own: \<open>I_cell_unclamped\<close> is \<^verbatim>\<open>I_cell\<close> before the
  masks of lines 183-184, \<open>T_current_in\<close> is \<^verbatim>\<open>T_current\<close> before line 177, and \<open>T_cell\<close>,
  \<open>V_th0\<close>, \<open>T_current\<close>, \<open>E_current\<close> stand for the values after lines 114, 207, 177 and
  228. \<open>Faraday\<close> is the source's \<^verbatim>\<open>F\<close>, \<open>V_ul_map\<close> its
  \<^verbatim>\<open>V_ul\<close> of line 189 and \<open>V_ul_masked\<close> its \<^verbatim>\<open>V_ul\<close> after line 241. The scalars of the
  battery are numpy floats like the entries of its arrays, so a division by zero answers
  an infinity or NaN.
\<close>

subsection \<open>Electrical properties (lines 96-114)\<close>

definition n_series :: "battery \<Rightarrow> int" where
  "n_series b = pack_series (pack_config b)"

definition n_parallel :: "battery \<Rightarrow> int" where
  "n_parallel b = pack_parallel (pack_config b)"

definition n_total :: "battery \<Rightarrow> int" where
  "n_total b = n_series b * n_parallel b"

definition Nn :: "battery \<Rightarrow> int" where
  "Nn b = module_normal_count (module_config b)"

definition Np :: "battery \<Rightarrow> int" where
  "Np b = module_parallel_count (module_config b)"

definition n_total_module :: "battery \<Rightarrow> int" where
  "n_total_module b = Nn b * Np b"

definition I_cell_unclamped :: "battery \<Rightarrow> fl list" where
  "I_cell_unclamped b = map (\<lambda>i. - i / of_py_int (n_parallel b)) (inputs_current (inputs b))"

definition initial_discharge_state :: "battery \<Rightarrow> numerics \<Rightarrow> fl list" where
  "initial_discharge_state b num =
     map (\<lambda>e. e + current_energy b ! 0) (np_dot (time_integrate num) (inputs_power_in (inputs b)))"

definition SOC_old :: "battery \<Rightarrow> numerics \<Rightarrow> fl list" where
  "SOC_old b num =
     set_above (Fin 1) (set_below (Fin 0)
       (map (\<lambda>e. e / max_energy b) (initial_discharge_state b num)))"

definition DOD_old :: "battery \<Rightarrow> numerics \<Rightarrow> fl list" where
  "DOD_old b num = map (\<lambda>s. Fin 1 - s) (SOC_old b num)"

definition T_cell :: "battery \<Rightarrow> fl list" where
  "T_cell b = set_above (Fin 322.65) (set_below (Fin 272.65) (cell_temperature b))"

text \<open>The array that the name \<^verbatim>\<open>T_current\<close> of line 83 holds once lines 113-114 have run:
  the clamped cell temperature when the two fields share their array.\<close>

definition T_current_in :: "battery \<Rightarrow> fl list" where
  "T_current_in b = (if temperature_is_cell_temperature b then T_cell b else temperature b)"

subsection \<open>Heat generation (lines 120-131)\<close>

definition sigma :: fl where
  "sigma = Fin 139"

definition Faraday :: fl where
  "Faraday = Fin 96485"

definition delta_S :: "battery \<Rightarrow> numerics \<Rightarrow> fl list" where
  "delta_S b num =
     map (\<lambda>s. Fin (- 496.66) * s ^ 6 + Fin 1729.4 * s ^ 5 + Fin (- 2278) * s ^ 4
             + Fin 1382.2 * s ^ 3 + Fin (- 380.47) * s ^ 2 + Fin 46.508 * s + Fin (- 10.692))
       (SOC_old b num)"

definition i_cell :: "battery \<Rightarrow> fl list" where
  "i_cell b = map (\<lambda>i. i / cell_electrode_area (cell b)) (I_cell_unclamped b)"

definition q_dot_entropy :: "battery \<Rightarrow> numerics \<Rightarrow> fl list" where
  "q_dot_entropy b num =
     map3 (\<lambda>T dS i. (- T) * dS * i / (Fin 1 * Faraday)) (T_cell b) (delta_S b num) (i_cell b)"

definition q_dot_joule :: "battery \<Rightarrow> fl list" where
  "q_dot_joule b = map (\<lambda>i. i ^ 2 / sigma) (i_cell b)"

definition Q_heat_gen :: "battery \<Rightarrow> numerics \<Rightarrow> fl list" where
  "Q_heat_gen b num =
     map2 (\<lambda>qj qe. (qj + qe) * cell_surface_area (cell b)) (q_dot_joule b) (q_dot_entropy b num)"

definition q_joule_frac :: "battery \<Rightarrow> numerics \<Rightarrow> fl list" where
  "q_joule_frac b num = map2 (\<lambda>qj qe. qj / (qj + qe)) (q_dot_joule b) (q_dot_entropy b num)"

definition q_entropy_frac :: "battery \<Rightarrow> numerics \<Rightarrow> fl list" where
  "q_entropy_frac b num = map2 (\<lambda>qj qe. qe / (qj + qe)) (q_dot_joule b) (q_dot_entropy b num)"

subsection \<open>Heat rejection of a single cell (lines 134-138)\<close>

definition Q_convec_lumped :: "battery \<Rightarrow> fl list" where
  "Q_convec_lumped b =
     map2 (\<lambda>T Ta. heat_transfer_coefficient b * cell_surface_area (cell b) * (T - Ta))
       (T_cell b) (ambient_temperature b)"

definition P_net_lumped :: "battery \<Rightarrow> numerics \<Rightarrow> fl list" where
  "P_net_lumped b num =
     map2 (\<lambda>Q Qc. (Q - Qc) * of_py_int (n_total b)) (Q_heat_gen b num) (Q_convec_lumped b)"

subsection \<open>Heat rejection of a bank of cells in cross flow (lines 141-174)\<close>

text \<open>\<open>T_film\<close> is the source's \<^verbatim>\<open>T\<close> of line 157 and \<open>h_bank\<close> its \<^verbatim>\<open>h\<close> of line 169.\<close>

definition S_T :: "battery \<Rightarrow> fl" where
  "S_T b = module_normal_spacing (module_config b)"

definition S_L :: "battery \<Rightarrow> fl" where
  "S_L b = module_parallel_spacing (module_config b)"

definition K_air :: "battery \<Rightarrow> fl" where
  "K_air b = fluid_thermal_conductivity (cooling_fluid b)"

definition Cp_air :: "battery \<Rightarrow> fl" where
  "Cp_air b = fluid_specific_heat_capacity (cooling_fluid b)"

definition V_air :: "battery \<Rightarrow> fl" where
  "V_air b = fluid_discharge_air_cooling_flowspeed (cooling_fluid b)"

definition rho_air :: "battery \<Rightarrow> fl" where
  "rho_air b = fluid_density (cooling_fluid b)"

definition D_cell :: "battery \<Rightarrow> fl" where
  "D_cell b = cell_diameter (cell b)"

definition S_D :: "battery \<Rightarrow> fl" where
  "S_D b = np_sqrt (S_T b ^ 2 + S_L b ^ 2)"

definition V_max :: "battery \<Rightarrow> fl" where
  "V_max b =
     (if Fin 2 * (S_D b - D_cell b) < S_T b - D_cell b
      then V_air b * (S_T b / (Fin 2 * (S_D b - D_cell b)))
      else V_air b * (S_T b / (S_T b - D_cell b)))"

definition T_film :: "battery \<Rightarrow> fl list" where
  "T_film b = map2 (\<lambda>Ta Tc. (Ta + Tc) / Fin 2) (ambient_temperature b) (T_current_in b)"

definition nu_air :: "battery \<Rightarrow> fl list" where
  "nu_air b =
     map (\<lambda>Ta. fluid_kinematic_viscosity_fit (cooling_fluid b) (Ta - Fin 272.65))
       (ambient_temperature b)"

definition Re_max :: "battery \<Rightarrow> fl list" where
  "Re_max b = map (\<lambda>nu. V_max b * D_cell b / nu) (nu_air b)"

definition Pr :: "battery \<Rightarrow> fl list" where
  "Pr b =
     map (\<lambda>Ta. fluid_prandlt_number_fit (cooling_fluid b) (Ta - Fin 272.65))
       (ambient_temperature b)"

definition Prw :: "battery \<Rightarrow> fl list" where
  "Prw b = map (\<lambda>T. fluid_prandlt_number_fit (cooling_fluid b) (T - Fin 272.65)) (T_film b)"

text \<open>Lines 162-167: \<^verbatim>\<open>if all(Re_max) > 10E2\<close> compares the truth value that \<^verbatim>\<open>all\<close>
  returns with 1000. The result is the pair \<open>(C, m)\<close>.\<close>

definition convective_constants :: "fl list \<Rightarrow> fl \<Rightarrow> fl \<Rightarrow> fl \<times> real" where
  "convective_constants Re_max' S_T' S_L' =
     (if Fin 1000 < of_py_bool (py_all Re_max')
      then (Fin 0.35 * np_power (S_T' / S_L') 0.2, 0.6)
      else (Fin 0.51, 0.5))"

definition Nu :: "battery \<Rightarrow> fl list" where
  "Nu b =
     (let (C, m) = convective_constants (Re_max b) (S_T b) (S_L b)
      in map3 (\<lambda>R p pw. C * np_power R m * np_power p 0.36 * np_power (p / pw) 0.25)
           (Re_max b) (Pr b) (Prw b))"

definition h_bank :: "battery \<Rightarrow> fl list" where
  "h_bank b = map (\<lambda>N. N * K_air b / D_cell b) (Nu b)"

definition Tw_Ti :: "battery \<Rightarrow> fl list" where
  "Tw_Ti b = map2 (-) (T_film b) (ambient_temperature b)"

definition Tw_To :: "battery \<Rightarrow> fl list" where
  "Tw_To b =
     map2 (\<lambda>Ti h. Ti * np_exp ((- Fin pi) * D_cell b * of_py_int (n_total_module b) * h
                     / (rho_air b * V_air b * of_py_int (Nn b) * S_T b * Cp_air b)))
       (Tw_Ti b) (h_bank b)"

definition dT_lm :: "battery \<Rightarrow> fl list" where
  "dT_lm b = map2 (\<lambda>Ti To. (Ti - To) / np_log (Ti / To)) (Tw_Ti b) (Tw_To b)"

definition Q_convec_bank :: "battery \<Rightarrow> fl list" where
  "Q_convec_bank b =
     map2 (\<lambda>h dT. h * Fin pi * D_cell b * cell_height (cell b) * Fin 0.8
                   * of_py_int (n_total_module b) * dT)
       (h_bank b) (dT_lm b)"

definition P_net_bank :: "battery \<Rightarrow> numerics \<Rightarrow> fl list" where
  "P_net_bank b num =
     map2 (\<lambda>Q Qc. Q * of_py_int (n_total_module b) - Qc) (Q_heat_gen b num) (Q_convec_bank b)"

subsection \<open>Temperature update and power (lines 134, 176-181)\<close>

definition P_net :: "battery \<Rightarrow> numerics \<Rightarrow> fl list" where
  "P_net b num = (if n_total b = 1 then P_net_lumped b num else P_net_bank b num)"

definition dT_dt :: "battery \<Rightarrow> numerics \<Rightarrow> fl list" where
  "dT_dt b num =
     map (\<lambda>p. p / (cell_mass (cell b) * of_py_int (n_total_module b)
                    * cell_specific_heat_capacity (cell b)))
       (P_net b num)"

definition T_current :: "battery \<Rightarrow> numerics \<Rightarrow> fl list" where
  "T_current b num =
     map (\<lambda>d. T_current_in b ! 0 + d) (np_dot (time_integrate num) (dT_dt b num))"

definition P_loss :: "battery \<Rightarrow> numerics \<Rightarrow> fl list" where
  "P_loss b num = map (\<lambda>Q. of_py_int (n_total b) * Q) (Q_heat_gen b num)"

definition P :: "battery \<Rightarrow> numerics \<Rightarrow> fl list" where
  "P b num = map2 (\<lambda>p l. p - \<bar>l\<bar>) (inputs_power_in (inputs b)) (P_loss b num)"

subsection \<open>Cell current, data-sheet lookup and equivalent circuit (lines 183-211)\<close>

definition I_cell :: "battery \<Rightarrow> fl list" where
  "I_cell b = set_above (Fin 8) (set_below (Fin 0) (I_cell_unclamped b))"

definition T_cell_Celcius :: "battery \<Rightarrow> fl list" where
  "T_cell_Celcius b = map (\<lambda>T. T - Fin 272.65) (T_cell b)"

text \<open>\<^verbatim>\<open>np.hstack\<close> of three columns: one row \<open>[current, temperature, DOD]\<close> per point.\<close>

definition pts :: "battery \<Rightarrow> numerics \<Rightarrow> fl list list" where
  "pts b num = map3 (\<lambda>i T d. [i, T, d]) (I_cell b) (T_cell_Celcius b) (DOD_old b num)"

text \<open>Line 189: column 1 of what the performance map answers; an IndexError when the
  answer has fewer than two columns.\<close>

definition V_ul_map :: "battery \<Rightarrow> numerics \<Rightarrow> py_error + fl list" where
  "V_ul_map b num =
     (let rows = discharge_performance_map_Voltage b (pts b num)
      in if list_ex (\<lambda>r. length r < 2) rows then Inl IndexError
         else Inr (map (\<lambda>r. r ! 1) rows))"

definition tau_Th :: "battery \<Rightarrow> numerics \<Rightarrow> fl list" where
  "tau_Th b num = map (\<lambda>s. Fin 2.151 * np_exp (Fin 2.132 * s) + Fin 27.2) (SOC_old b num)"

definition R_Th :: "battery \<Rightarrow> numerics \<Rightarrow> fl list" where
  "R_Th b num = map (\<lambda>s. Fin (- 1.212) * np_exp (Fin (- 0.03383) * s) + Fin 1.258) (SOC_old b num)"

definition C_Th :: "battery \<Rightarrow> numerics \<Rightarrow> fl list" where
  "C_Th b num = map2 (/) (tau_Th b num) (R_Th b num)"

definition R_0 :: "battery \<Rightarrow> numerics \<Rightarrow> fl list" where
  "R_0 b num = map (\<lambda>s. Fin 0.01483 * s ^ 2 - Fin 0.02518 * s + Fin 0.1036) (SOC_old b num)"

definition R_0_aged :: "battery \<Rightarrow> numerics \<Rightarrow> fl list" where
  "R_0_aged b num = map (\<lambda>r. r * R_growth_factor b) (R_0 b num)"

definition V_th0 :: "battery \<Rightarrow> fl" where
  "V_th0 b = initial_thevenin_voltage b / of_py_int (n_series b)"

definition V_Th :: "externals \<Rightarrow> battery \<Rightarrow> numerics \<Rightarrow> py_error + fl list" where
  "V_Th ext b num =
     compute_thevenin_votlage ext (V_th0 b) (I_cell b) (C_Th b num) (R_Th b num) num"

text \<open>Line 211, given the looked-up voltage and the Thevenin voltage.\<close>

definition V_oc :: "battery \<Rightarrow> numerics \<Rightarrow> fl list \<Rightarrow> fl list \<Rightarrow> fl list" where
  "V_oc b num V_ul V_Th' =
     map2 (+) (map2 (+) V_ul V_Th') (map2 (*) (I_cell b) (R_0_aged b num))"

subsection \<open>Energy, state of charge and charge throughput (lines 218-241)\<close>

definition E_bat :: "battery \<Rightarrow> numerics \<Rightarrow> fl list" where
  "E_bat b num = np_dot (time_integrate num) (P b num)"

text \<open>
  Lines 221-224. The inner test is \<^verbatim>\<open>np.isnan(E_bat.any())\<close>: \<^verbatim>\<open>isnan\<close> of the truth value
  of \<^verbatim>\<open>any\<close>.
\<close>

definition sanitize_E_bat :: "fl list \<Rightarrow> fl list" where
  "sanitize_E_bat E =
     (if list_ex np_isnan E
      then (let E' = map (\<lambda>one. one * np_max E) (replicate (length E) (Fin 1))
            in if np_isnan (of_py_bool (np_any E')) then replicate (length E') (Fin 0) else E')
      else E)"

definition E_current :: "battery \<Rightarrow> numerics \<Rightarrow> fl list" where
  "E_current b num =
     set_above (max_energy b) (map (\<lambda>e. e + current_energy b ! 0) (sanitize_E_bat (E_bat b num)))"

definition SOC_new :: "battery \<Rightarrow> numerics \<Rightarrow> fl list" where
  "SOC_new b num =
     set_above (Fin 1) (set_below (Fin 0) (map (\<lambda>e. e / max_energy b) (E_current b num)))"

definition DOD_new :: "battery \<Rightarrow> numerics \<Rightarrow> fl list" where
  "DOD_new b num = map (\<lambda>s. Fin 1 - s) (SOC_new b num)"

definition Q_total :: "externals \<Rightarrow> battery \<Rightarrow> numerics \<Rightarrow> fl list" where
  "Q_total ext b num =
     charge_throughput b ! 0
       # map (\<lambda>c. charge_throughput b ! 0 + c / Units_hr ext)
           (cumtrapz (I_cell b) (time_control_points num))"

definition Q_segment :: "externals \<Rightarrow> battery \<Rightarrow> numerics \<Rightarrow> fl list" where
  "Q_segment ext b num =
     Fin 0 # map (\<lambda>c. c / Units_hr ext) (cumtrapz (I_cell b) (time_control_points num))"

text \<open>Line 241, \<^verbatim>\<open>V_ul[SOC_new < 0.] = 0.\<close>, with the state of charge of line 233.\<close>

definition V_ul_masked :: "battery \<Rightarrow> numerics \<Rightarrow> fl list \<Rightarrow> fl list" where
  "V_ul_masked b num V_ul = map2 (\<lambda>v s. if s < Fin 0 then Fin 0 else v) V_ul (SOC_new b num)"

section \<open>The battery charge model\<close>

text \<open>
  The model covers the calls in which every per-point array has one row per control
  point, there is at least one control point, the integration operator is square and the
  performance map answers one row per point. For other shapes numpy raises an error or
  broadcasts an array of one row; those calls are outside the model and are answered with
  \<open>Unsupported_shape\<close>.
\<close>

definition well_shaped :: "battery \<Rightarrow> numerics \<Rightarrow> bool" where
  "well_shaped b num =
     (let N = length (time_control_points num)
      in 0 < N
         \<and> length (time_integrate num) = N
         \<and> list_all (\<lambda>row. length row = N) (time_integrate num)
         \<and> length (inputs_current (inputs b)) = N
         \<and> length (inputs_power_in (inputs b)) = N
         \<and> length (ambient_temperature b) = N
         \<and> length (temperature b) = N
         \<and> length (cell_temperature b) = N
         \<and> length (current_energy b) = N
         \<and> length (charge_throughput b) = N
         \<and> length (discharge_performance_map_Voltage b (pts b num)) = N)"

text \<open>Lines 244-263: the outputs are written into the battery, which is returned. The
  field \<open>temperature\<close> is not assigned; it holds the clamped array when it shares the array
  of the cell temperature.\<close>

definition pack_outputs ::
  "externals \<Rightarrow> battery \<Rightarrow> numerics \<Rightarrow> fl list \<Rightarrow> fl list \<Rightarrow> battery" where
  "pack_outputs ext b num V_ul V_Th' =
     b\<lparr> temperature := T_current_in b,
        current_energy := E_current b num,
        cell_temperature := T_current b num,
        pack_temperature := T_current b num,
        cell_joule_heat_fraction := q_joule_frac b num,
        cell_entropy_heat_fraction := q_entropy_frac b num,
        resistive_losses := P_loss b num,
        load_power :=
          map2 (\<lambda>v i. v * of_py_int (n_series b) * i) (V_ul_masked b num V_ul)
            (inputs_current (inputs b)),
        current := inputs_current (inputs b),
        voltage_open_circuit := map (\<lambda>v. v * of_py_int (n_series b)) (V_oc b num V_ul V_Th'),
        cell_voltage_open_circuit := V_oc b num V_ul V_Th',
        cell_current := I_cell b,
        thevenin_voltage := map (\<lambda>v. v * of_py_int (n_series b)) V_Th',
        cumulative_cell_charge_throughput := Q_total ext b num,
        cell_charge_throughput := Q_segment ext b num,
        heat_energy_generated := map (\<lambda>Q. Q * of_py_int (n_total_module b)) (Q_heat_gen b num),
        internal_resistance := map (\<lambda>r. r * of_py_int (n_series b)) (R_0 b num),
        state_of_charge := SOC_new b num,
        depth_of_discharge := DOD_new b num,
        voltage_under_load := map (\<lambda>v. v * of_py_int (n_series b)) (V_ul_masked b num V_ul),
        cell_voltage_under_load := V_ul_masked b num V_ul \<rparr>"

definition LiNiMnCo_charge :: "externals \<Rightarrow> battery \<Rightarrow> numerics \<Rightarrow> py_error + battery" where
  "LiNiMnCo_charge ext b num =
     (if \<not> well_shaped b num then Inl Unsupported_shape
      else (case V_ul_map b num of
              Inl e \<Rightarrow> Inl e
            | Inr V_ul \<Rightarrow>
                (case V_Th ext b num of
                   Inl e \<Rightarrow> Inl e
                 | Inr V_Th' \<Rightarrow> Inr (pack_outputs ext b num V_ul V_Th'))))"

section \<open>Predicates and example inputs for the statements\<close>

text \<open>A finite number in the range of a float: an entry \<open>Fin x\<close> of an input stands for a
  float when \<open>x\<close> is below the overflow threshold in size.\<close>

fun finite_float :: "fl \<Rightarrow> bool" where
  "finite_float (Fin x) = (\<bar>x\<bar> < overflow_threshold)"
| "finite_float PInf = False"
| "finite_float MInf = False"
| "finite_float NaN = False"

text \<open>A finite number that is not negative; a number that is not negative, finite or the
  positive infinity; and an array that never decreases from one point to the next.\<close>

fun nonneg :: "fl \<Rightarrow> bool" where
  "nonneg (Fin x) = (0 \<le> x)"
| "nonneg PInf = False"
| "nonneg MInf = False"
| "nonneg NaN = False"

fun nonneg_or_inf :: "fl \<Rightarrow> bool" where
  "nonneg_or_inf (Fin x) = (0 \<le> x)"
| "nonneg_or_inf PInf = True"
| "nonneg_or_inf MInf = False"
| "nonneg_or_inf NaN = False"

fun nondecreasing :: "fl list \<Rightarrow> bool" where
  "nondecreasing [] = True"
| "nondecreasing [x] = True"
| "nondecreasing (x # y # zs) = (x \<le> y \<and> nondecreasing (y # zs))"

text \<open>A number inside the closed interval between two reals (so not NaN).\<close>

definition in_range :: "real \<Rightarrow> real \<Rightarrow> fl \<Rightarrow> bool" where
  "in_range lo hi x = (Fin lo \<le> x \<and> x \<le> Fin hi)"

text \<open>
  The inputs of the energy path are finite floats: the power and current series, the
  integration operator, the prior energy, the maximum energy, the prior cell temperature,
  the electrode area and the surface area of the cell; and the three divisors on that path
  (maximum energy, electrode area, number of cells in parallel) are not zero.
\<close>

definition finite_energy_inputs :: "battery \<Rightarrow> numerics \<Rightarrow> bool" where
  "finite_energy_inputs b num =
     (list_all finite_float (inputs_power_in (inputs b))
      \<and> list_all finite_float (inputs_current (inputs b))
      \<and> list_all (list_all finite_float) (time_integrate num)
      \<and> list_all finite_float (cell_temperature b)
      \<and> finite_float (current_energy b ! 0)
      \<and> finite_float (max_energy b) \<and> max_energy b \<noteq> Fin 0
      \<and> finite_float (cell_electrode_area (cell b)) \<and> cell_electrode_area (cell b) \<noteq> Fin 0
      \<and> finite_float (cell_surface_area (cell b))
      \<and> n_parallel b \<noteq> 0)"

text \<open>
  The examples use an explicit Euler integrator with one step per control point for
  \<^verbatim>\<open>odeint\<close>, a segment of one hour with three control points and its trapezoid
  integration operator, and a performance map that falls linearly with the depth of
  discharge.
\<close>

fun euler_steps :: "(fl list \<Rightarrow> fl \<Rightarrow> fl list) \<Rightarrow> fl \<Rightarrow> fl \<Rightarrow> fl list \<Rightarrow> fl list list" where
  "euler_steps f y s [] = []"
| "euler_steps f y s (t # ts) =
     [y + (t - s) * (f [y] s ! 0)] # euler_steps f (y + (t - s) * (f [y] s ! 0)) t ts"

definition euler_odeint :: "(fl list \<Rightarrow> fl \<Rightarrow> fl list) \<Rightarrow> fl \<Rightarrow> fl list \<Rightarrow> fl list list" where
  "euler_odeint f y0 ts = (case ts of [] \<Rightarrow> [] | t0 # rest \<Rightarrow> [y0] # euler_steps f y0 t0 rest)"

definition ex_externals :: externals where
  "ex_externals = \<lparr> Units_hr = Fin 3600, odeint = euler_odeint \<rparr>"

definition ex_numerics :: numerics where
  "ex_numerics =
     \<lparr> time_integrate =
         [[Fin 0, Fin 0, Fin 0], [Fin 900, Fin 900, Fin 0], [Fin 900, Fin 1800, Fin 900]],
       time_control_points = [Fin 0, Fin 1800, Fin 3600] \<rparr>"

definition ex_Voltage :: "fl list list \<Rightarrow> fl list list" where
  "ex_Voltage rows = map (\<lambda>p. [p ! 0, Fin 4.2 - Fin 0.6 * (p ! 2)]) rows"

text \<open>A single cell at rest: no current, a power series that takes the energy above the
  maximum at the second point and below zero at the third.\<close>

definition ex_battery :: battery where
  "ex_battery =
     \<lparr> inputs = \<lparr> inputs_current = [Fin 0, Fin 0, Fin 0],
                  inputs_power_in = [Fin 200, Fin 200, Fin (- 1000)] \<rparr>,
       cell = \<lparr> cell_mass = Fin 0.048, cell_electrode_area = Fin 0.0342,
                cell_specific_heat_capacity = Fin 1108, cell_surface_area = Fin 0.004,
                cell_diameter = Fin 0.0185, cell_height = Fin 0.0653 \<rparr>,
       heat_transfer_coefficient = Fin 35,
       ambient_temperature = [Fin 300, Fin 300, Fin 300],
       initial_thevenin_voltage = Fin 1,
       temperature = [Fin 300, Fin 300, Fin 300],
       cell_temperature = [Fin 300, Fin 250, Fin 400],
       temperature_is_cell_temperature = False,
       max_energy = Fin 360000,
       R_growth_factor = Fin 1,
       current_energy = [Fin 180000, Fin 180000, Fin 180000],
       charge_throughput = [Fin 0, Fin 0, Fin 0],
       discharge_performance_map_Voltage = ex_Voltage,
       pack_config = \<lparr> pack_series = 1, pack_parallel = 1 \<rparr>,
       module_config = \<lparr> module_normal_count = 1, module_parallel_count = 1,
                         module_normal_spacing = Fin 0.02, module_parallel_spacing = Fin 0.02 \<rparr>,
       cooling_fluid = \<lparr> fluid_thermal_conductivity = Fin 0.0253,
                         fluid_specific_heat_capacity = Fin 1006,
                         fluid_discharge_air_cooling_flowspeed = Fin 0.5,
                         fluid_density = Fin 1.2,
                         fluid_kinematic_viscosity_fit = (\<lambda>T. Fin 0.000015),
                         fluid_prandlt_number_fit = (\<lambda>T. Fin 0.7) \<rparr>,
       pack_temperature = [], cell_joule_heat_fraction = [], cell_entropy_heat_fraction = [],
       resistive_losses = [], load_power = [], current = [], voltage_open_circuit = [],
       cell_voltage_open_circuit = [], cell_current = [], thevenin_voltage = [],
       cumulative_cell_charge_throughput = [], cell_charge_throughput = [],
       heat_energy_generated = [], internal_resistance = [], state_of_charge = [],
       depth_of_discharge = [], voltage_under_load = [], cell_voltage_under_load = [] \<rparr>"

text \<open>The same cell charged with 10 A for the hour, without cooling.\<close>

definition hot_battery :: battery where
  "hot_battery =
     ex_battery\<lparr> inputs := \<lparr> inputs_current = [Fin (- 10), Fin (- 10), Fin (- 10)],
                              inputs_power_in = [Fin 0, Fin 0, Fin 0] \<rparr>,
                 heat_transfer_coefficient := Fin 0 \<rparr>"

text \<open>The cell at rest with a power series that is NaN at the second control point.\<close>

definition nan_battery :: battery where
  "nan_battery =
     ex_battery\<lparr> inputs := \<lparr> inputs_current = [Fin 0, Fin 0, Fin 0],
                              inputs_power_in = [Fin 200, NaN, Fin 200] \<rparr> \<rparr>"

text \<open>The cell at rest with a finite power series of \<open>1e306\<close> W, \<open>-1e306\<close> W and 0 W.\<close>

definition overflow_battery :: battery where
  "overflow_battery =
     ex_battery\<lparr> inputs := \<lparr> inputs_current = [Fin 0, Fin 0, Fin 0],
                              inputs_power_in = [Fin (10 ^ 306), Fin (- (10 ^ 306)), Fin 0] \<rparr> \<rparr>"

text \<open>The cell with a current series that is NaN at the second control point.\<close>

definition nan_current_battery :: battery where
  "nan_current_battery =
     ex_battery\<lparr> inputs := \<lparr> inputs_current = [Fin 0, NaN, Fin 0],
                              inputs_power_in = [Fin 0, Fin 0, Fin 0] \<rparr> \<rparr>"

text \<open>
  For the Thevenin integrator alone: an \<^verbatim>\<open>odeint\<close> that is exact on a linear right-hand side
  \<open>f z t = a - k * z\<close>. It reads \<open>a\<close> and \<open>k\<close> off \<open>f\<close> at \<open>z = 0\<close> and \<open>z = 1\<close> and samples
  the solution \<open>a / k + (y0 - a / k) * exp (- k * (t - t0))\<close>. The control points 0, 1, 5 end
  at five time constants of a circuit with \<open>R * C = 1\<close>.
\<close>

definition linear_exact_odeint :: "(fl list \<Rightarrow> fl \<Rightarrow> fl list) \<Rightarrow> fl \<Rightarrow> fl list \<Rightarrow> fl list list" where
  "linear_exact_odeint f y0 ts =
     (let t0 = ts ! 0;
          a = f [Fin 0] t0 ! 0;
          k = a - f [Fin 1] t0 ! 0
      in map (\<lambda>t. [a / k + (y0 - a / k) * np_exp (- (k * (t - t0)))]) ts)"

definition rc_externals :: externals where
  "rc_externals = \<lparr> Units_hr = Fin 3600, odeint = linear_exact_odeint \<rparr>"

definition rc_numerics :: numerics where
  "rc_numerics =
     \<lparr> time_integrate = [[Fin 0, Fin 0, Fin 0], [Fin 0.5, Fin 0.5, Fin 0], [Fin 0.5, Fin 2.5, Fin 2]],
       time_control_points = [Fin 0, Fin 1, Fin 5] \<rparr>"

section \<open>Facts about the steps\<close>

subsection \<open>The NaN test of the energy step\<close>

lemma np_isnan_of_py_bool: "\<not> np_isnan (of_py_bool c)"
  by (simp add: np_isnan_def of_py_bool_def)

lemma fmax_NaN_left: "fmax NaN b = NaN"
  by (simp add: fmax_def)

lemma fmax_NaN_right: "fmax a NaN = NaN"
  by (simp add: fmax_def)

lemma foldl_fmax_NaN: "foldl fmax NaN xs = NaN"
  by (induction xs) (simp_all add: fmax_NaN_left)

lemma foldl_fmax_mem: "NaN \<in> set xs \<Longrightarrow> foldl fmax a xs = NaN"
proof (induction xs arbitrary: a)
  case Nil
  then show ?case by simp
next
  case (Cons x xs)
  show ?case
  proof (cases "x = NaN")
    case True
    then show ?thesis by (simp add: fmax_NaN_right foldl_fmax_NaN)
  next
    case False
    with Cons.prems have "NaN \<in> set xs" by simp
    then show ?thesis by (simp add: Cons.IH)
  qed
qed

lemma np_max_NaN: "NaN \<in> set E \<Longrightarrow> np_max E = NaN"
proof (cases E)
  case Nil
  assume "NaN \<in> set E"
  with Nil show ?thesis by simp
next
  case (Cons x xs)
  assume m: "NaN \<in> set E"
  show ?thesis
  proof (cases "x = NaN")
    case True
    with Cons show ?thesis by (simp add: np_max_def foldl_fmax_NaN)
  next
    case False
    with m Cons have "NaN \<in> set xs" by simp
    with Cons show ?thesis by (simp add: np_max_def foldl_fmax_mem)
  qed
qed

lemma sanitize_E_bat_NaN:
  assumes "NaN \<in> set E"
  shows "sanitize_E_bat E = replicate (length E) NaN"
proof -
  have ex: "list_ex np_isnan E"
    using assms by (auto simp: list_ex_iff np_isnan_def)
  have mx: "np_max E = NaN"
    using assms by (rule np_max_NaN)
  show ?thesis
    by (simp add: sanitize_E_bat_def ex mx Let_def np_isnan_of_py_bool)
qed

lemma sanitize_E_bat_id: "NaN \<notin> set E \<Longrightarrow> sanitize_E_bat E = E"
  by (auto simp: sanitize_E_bat_def list_ex_iff np_isnan_def)

subsection \<open>The result of the model and of the Thevenin loop\<close>

lemma charge_InrD:
  assumes "LiNiMnCo_charge ext b num = Inr out"
  shows "well_shaped b num \<and>
         (\<exists>V_ul V_Th'. V_ul_map b num = Inr V_ul \<and> V_Th ext b num = Inr V_Th' \<and>
            out = pack_outputs ext b num V_ul V_Th')"
  using assms by (auto simp: LiNiMnCo_charge_def split: if_splits sum.splits)

lemma charge_InrI:
  assumes "well_shaped b num" "V_ul_map b num = Inr V_ul" "V_Th ext b num = Inr V_Th'"
  shows "LiNiMnCo_charge ext b num = Inr (pack_outputs ext b num V_ul V_Th')"
  using assms by (simp add: LiNiMnCo_charge_def)

lemma pack_outputs_fields:
  "current_energy (pack_outputs ext b num V_ul V_Th') = E_current b num"
  "cell_temperature (pack_outputs ext b num V_ul V_Th') = T_current b num"
  "pack_temperature (pack_outputs ext b num V_ul V_Th') = T_current b num"
  "cell_voltage_open_circuit (pack_outputs ext b num V_ul V_Th') = V_oc b num V_ul V_Th'"
  "voltage_open_circuit (pack_outputs ext b num V_ul V_Th') =
     map (\<lambda>v. v * of_py_int (n_series b)) (V_oc b num V_ul V_Th')"
  "cell_current (pack_outputs ext b num V_ul V_Th') = I_cell b"
  "thevenin_voltage (pack_outputs ext b num V_ul V_Th') =
     map (\<lambda>v. v * of_py_int (n_series b)) V_Th'"
  "cumulative_cell_charge_throughput (pack_outputs ext b num V_ul V_Th') = Q_total ext b num"
  "heat_energy_generated (pack_outputs ext b num V_ul V_Th') =
     map (\<lambda>Q. Q * of_py_int (n_total_module b)) (Q_heat_gen b num)"
  "state_of_charge (pack_outputs ext b num V_ul V_Th') = SOC_new b num"
  "depth_of_discharge (pack_outputs ext b num V_ul V_Th') = DOD_new b num"
  "voltage_under_load (pack_outputs ext b num V_ul V_Th') =
     map (\<lambda>v. v * of_py_int (n_series b)) (V_ul_masked b num V_ul)"
  "cell_voltage_under_load (pack_outputs ext b num V_ul V_Th') = V_ul_masked b num V_ul"
  by (simp_all add: pack_outputs_def)

lemma thevenin_loop_length:
  "thevenin_loop ext V0 Ic C R t is = Inr xs \<Longrightarrow> length xs = length is"
  by (induction "is" arbitrary: xs) (auto split: sum.splits)

lemma thevenin_loop_nth:
  "thevenin_loop ext V0 Ic C R t is = Inr xs \<Longrightarrow> k < length is \<Longrightarrow>
   thevenin_point ext V0 Ic C R t (is ! k) = Inr (xs ! k)"
proof (induction "is" arbitrary: xs k)
  case Nil
  then show ?case by simp
next
  case (Cons i "is")
  then show ?case by (cases k) (auto split: sum.splits)
qed

lemma compute_thevenin_votlage_length:
  "compute_thevenin_votlage ext V0 Ic C R num = Inr x \<Longrightarrow>
   length x = length (time_control_points num)"
  by (auto simp: compute_thevenin_votlage_def Let_def thevenin_loop_length split: if_splits sum.splits)

lemma compute_thevenin_votlage_hd:
  "compute_thevenin_votlage ext V0 Ic C R num = Inr x \<Longrightarrow> x ! 0 = V0"
  by (auto simp: compute_thevenin_votlage_def Let_def split: if_splits sum.splits)

lemma compute_thevenin_votlage_nth:
  assumes "compute_thevenin_votlage ext V0 Ic C R num = Inr x"
    and "1 \<le> i" "i < length (time_control_points num)"
  shows "thevenin_point ext V0 Ic C R (time_control_points num) i = Inr (x ! i)"
proof -
  let ?t = "time_control_points num"
  from assms(1) obtain xs where
    l: "thevenin_loop ext V0 Ic C R ?t [1..<length ?t] = Inr xs" and x: "x = V0 # xs"
    by (auto simp: compute_thevenin_votlage_def Let_def split: if_splits sum.splits)
  from assms(2,3) have k: "i - 1 < length [1..<length ?t]" by simp
  from assms(2,3) have "[1..<length ?t] ! (i - 1) = i" by simp
  with thevenin_loop_nth [OF l k] have "thevenin_point ext V0 Ic C R ?t i = Inr (xs ! (i - 1))"
    by simp
  moreover from assms(2) x have "x ! i = xs ! (i - 1)" by (cases i) simp_all
  ultimately show ?thesis by simp
qed

lemma compute_thevenin_votlage_entry:
  assumes "compute_thevenin_votlage ext V0 Ic C R num = Inr x"
    and "1 \<le> i" "i < length (time_control_points num)"
  shows "x ! i = odeint ext (\<lambda>z s. model z s (Ic ! i) (C ! i) (R ! i)) V0 (time_control_points num) ! 1 ! 0"
  using compute_thevenin_votlage_nth [OF assms]
  by (auto simp: thevenin_point_def Let_def split: if_splits)

lemma convective_constants_laminar: "convective_constants R s_t s_l = (Fin 0.51, 0.5)"
  by (simp add: convective_constants_def of_py_bool_def)

subsection \<open>Shapes\<close>

lemma length_set_below: "length (set_below c a) = length a"
  by (simp add: set_below_def)

lemma length_set_above: "length (set_above c a) = length a"
  by (simp add: set_above_def)

lemma length_np_dot: "length (np_dot I v) = length I"
  by (simp add: np_dot_def)

lemma length_map3: "length (map3 f xs ys zs) = min (length xs) (min (length ys) (length zs))"
  by (simp add: map3_def)

lemma length_steps:
  "length (I_cell_unclamped b) = length (inputs_current (inputs b))"
  "length (I_cell b) = length (inputs_current (inputs b))"
  "length (T_cell b) = length (cell_temperature b)"
  "length (T_cell_Celcius b) = length (cell_temperature b)"
  "length (initial_discharge_state b num) = length (time_integrate num)"
  "length (SOC_old b num) = length (time_integrate num)"
  "length (DOD_old b num) = length (time_integrate num)"
  "length (E_bat b num) = length (time_integrate num)"
  by (simp_all add: I_cell_unclamped_def I_cell_def T_cell_def T_cell_Celcius_def
      initial_discharge_state_def SOC_old_def DOD_old_def E_bat_def
      length_set_below length_set_above length_np_dot)

lemma length_sanitize_E_bat: "length (sanitize_E_bat E) = length E"
  by (simp add: sanitize_E_bat_def Let_def)

lemma length_steps2:
  "length (E_current b num) = length (time_integrate num)"
  "length (SOC_new b num) = length (time_integrate num)"
  "length (DOD_new b num) = length (time_integrate num)"
  by (simp_all add: E_current_def SOC_new_def DOD_new_def length_set_below length_set_above
      length_sanitize_E_bat length_steps)

lemma length_pts:
  "length (pts b num) =
     min (length (inputs_current (inputs b)))
       (min (length (cell_temperature b)) (length (time_integrate num)))"
  by (simp add: pts_def length_map3 length_steps)

subsection \<open>When the Thevenin loop succeeds\<close>

lemma length_euler_steps: "length (euler_steps f y s ts) = length ts"
  by (induction ts arbitrary: y s) simp_all

lemma length_euler_odeint: "length (euler_odeint f y ts) = length ts"
  by (simp add: euler_odeint_def length_euler_steps split: list.splits)

lemma euler_steps_rows: "r \<in> set (euler_steps f y s ts) \<Longrightarrow> r \<noteq> []"
  by (induction ts arbitrary: y s) auto

lemma euler_odeint_rows: "r \<in> set (euler_odeint f y ts) \<Longrightarrow> r \<noteq> []"
  by (auto simp: euler_odeint_def split: list.splits dest: euler_steps_rows)

lemma thevenin_loop_Inr:
  assumes sh: "\<And>f y. length (odeint ext f y t) = length t"
    and rows: "\<And>f y r. r \<in> set (odeint ext f y t) \<Longrightarrow> r \<noteq> []"
    and len: "length t \<le> length Ic" "length t \<le> length C" "length t \<le> length R"
    and idx: "\<forall>i\<in>set is. 1 \<le> i \<and> i < length t"
  shows "\<exists>xs. thevenin_loop ext V0 Ic C R t is = Inr xs"
  using idx
proof (induction "is")
  case Nil
  then show ?case by simp
next
  case (Cons i "is")
  then have i: "1 \<le> i" "i < length t" by simp_all
  let ?z = "odeint ext (\<lambda>z s. model z s (Ic ! i) (C ! i) (R ! i)) V0 t"
  have l: "length ?z = length t" by (rule sh)
  with i have "?z ! 1 \<in> set ?z" by simp
  then have "?z ! 1 \<noteq> []" by (rule rows)
  with i l len have "thevenin_point ext V0 Ic C R t i = Inr (?z ! 1 ! 0)"
    by (simp add: thevenin_point_def Let_def)
  moreover from Cons obtain xs where "thevenin_loop ext V0 Ic C R t is = Inr xs" by auto
  ultimately show ?case by simp
qed

lemma compute_thevenin_votlage_Inr:
  assumes sh: "\<And>f y. length (odeint ext f y (time_control_points num)) = length (time_control_points num)"
    and rows: "\<And>f y r. r \<in> set (odeint ext f y (time_control_points num)) \<Longrightarrow> r \<noteq> []"
    and len: "length (time_control_points num) \<le> length Ic"
      "length (time_control_points num) \<le> length C" "length (time_control_points num) \<le> length R"
    and ne: "0 < length (time_control_points num)"
  shows "\<exists>x. compute_thevenin_votlage ext V0 Ic C R num = Inr x"
proof -
  have "\<exists>xs. thevenin_loop ext V0 Ic C R (time_control_points num) [1..<length (time_control_points num)] = Inr xs"
    by (rule thevenin_loop_Inr) (use sh rows len in auto)
  then obtain xs where "thevenin_loop ext V0 Ic C R (time_control_points num) [1..<length (time_control_points num)] = Inr xs"
    by blast
  with ne show ?thesis by (simp add: compute_thevenin_votlage_def Let_def)
qed

subsection \<open>Overflow\<close>

lemma overflow_threshold_large: "10 ^ 307 < overflow_threshold"
  by (simp add: overflow_threshold_def)

lemma ovf_Fin: "\<bar>r\<bar> < overflow_threshold \<Longrightarrow> ovf r = Fin r"
  by (auto simp: ovf_def)

lemma ovf_small: "\<bar>r\<bar> \<le> 1000000000000 \<Longrightarrow> ovf r = Fin r"
proof -
  assume "\<bar>r\<bar> \<le> 1000000000000"
  moreover have "(1000000000000::real) \<le> 10 ^ 307" by simp
  ultimately show ?thesis
    using overflow_threshold_large by (intro ovf_Fin) linarith
qed

lemma ovf_not_NaN: "ovf r \<noteq> NaN"
  by (simp add: ovf_def)

lemma ovf_mono: "x \<le> y \<Longrightarrow> ovf x \<le> ovf y"
  using overflow_threshold_large by (auto simp: ovf_def)

lemma ovf_nonneg: "0 \<le> r \<Longrightarrow> nonneg_or_inf (ovf r)"
  using overflow_threshold_large by (auto simp: ovf_def)

subsection \<open>The examples, step by step\<close>

lemma Fin_power_bounded:
  assumes "\<bar>x\<bar> \<le> c" "1 \<le> c" "c ^ m \<le> 1000000000000" "n \<le> m"
  shows "Fin x ^ n = Fin (x ^ n)"
  using assms(4)
proof (induction n)
  case 0
  then show ?case by (simp add: one_fl_def)
next
  case (Suc n)
  have "\<bar>x\<bar> ^ Suc n \<le> c ^ Suc n"
    using assms(1) by (intro power_mono) simp_all
  also have "c ^ Suc n \<le> c ^ m"
    using assms(2) Suc.prems by (intro power_increasing) simp_all
  finally have "\<bar>x * x ^ n\<bar> \<le> 1000000000000"
    using assms(3) by (simp add: abs_mult power_abs)
  with Suc show ?case by (simp add: ovf_small)
qed

lemma Fin_power: "\<bar>x\<bar> \<le> 10 \<Longrightarrow> n \<le> 8 \<Longrightarrow> Fin x ^ n = Fin (x ^ n)"
  by (rule Fin_power_bounded [where c = 10 and m = 8]) simp_all

lemma Fin_power_large: "\<bar>x\<bar> \<le> 1000 \<Longrightarrow> n \<le> 4 \<Longrightarrow> Fin x ^ n = Fin (x ^ n)"
  by (rule Fin_power_bounded [where c = 1000 and m = 4]) simp_all

lemmas fl_arith =
  minus_fl_def zero_fl_def one_fl_def of_py_int_def Fin_power Fin_power_large ovf_small power_divide

lemma ex_well_shaped: "well_shaped ex_battery ex_numerics"
  by (simp add: well_shaped_def Let_def length_pts ex_battery_def ex_numerics_def ex_Voltage_def)

lemma hot_well_shaped: "well_shaped hot_battery ex_numerics"
  by (simp add: well_shaped_def Let_def length_pts hot_battery_def ex_battery_def ex_numerics_def ex_Voltage_def)

lemma ex_P: "P ex_battery ex_numerics = [Fin 200, Fin 200, Fin (- 1000)]"
  by (simp add: P_def P_loss_def Q_heat_gen_def q_dot_joule_def q_dot_entropy_def i_cell_def
      I_cell_unclamped_def n_parallel_def n_total_def n_series_def map3_def delta_S_def
      length_steps sigma_def Faraday_def T_cell_def set_above_def set_below_def
      ex_battery_def ex_numerics_def fl_arith
      SOC_old_def initial_discharge_state_def np_dot_def)

lemma ex_SOC_old: "SOC_old ex_battery ex_numerics = [Fin 0.5, Fin 1, Fin 0]"
  by (simp add: SOC_old_def initial_discharge_state_def np_dot_def set_above_def set_below_def
      ex_battery_def ex_numerics_def fl_arith)

lemma ex_E_bat: "E_bat ex_battery ex_numerics = [Fin 0, Fin 360000, Fin (- 360000)]"
  by (simp add: E_bat_def ex_P np_dot_def) (simp add: ex_numerics_def fl_arith)

lemma ex_E_current:
  "E_current ex_battery ex_numerics = [Fin 180000, Fin 360000, Fin (- 180000)]"
  by (simp add: E_current_def ex_E_bat sanitize_E_bat_id set_above_def)
     (simp add: ex_battery_def fl_arith)

lemma ex_SOC_new: "SOC_new ex_battery ex_numerics = [Fin 0.5, Fin 1, Fin 0]"
  by (simp add: SOC_new_def ex_E_current set_above_def set_below_def)
     (simp add: ex_battery_def fl_arith)

lemma ex_I_cell: "I_cell ex_battery = [Fin 0, Fin 0, Fin 0]"
  by (simp add: I_cell_def I_cell_unclamped_def set_above_def set_below_def n_parallel_def
      ex_battery_def fl_arith)

lemma ex_T_cell: "T_cell ex_battery = [Fin 300, Fin 272.65, Fin 322.65]"
  by (simp add: T_cell_def set_above_def set_below_def ex_battery_def)

lemma ex_V_ul_map: "V_ul_map ex_battery ex_numerics = Inr [Fin 3.9, Fin 4.2, Fin 3.6]"
  by (simp add: V_ul_map_def pts_def map3_def ex_I_cell T_cell_Celcius_def ex_T_cell
      DOD_old_def ex_SOC_old Let_def fl_arith)
     (simp add: ex_battery_def ex_Voltage_def fl_arith)

lemma length_circuit:
  "length (tau_Th b num) = length (time_integrate num)"
  "length (R_Th b num) = length (time_integrate num)"
  "length (C_Th b num) = length (time_integrate num)"
  "length (R_0 b num) = length (time_integrate num)"
  "length (R_0_aged b num) = length (time_integrate num)"
  by (simp_all add: tau_Th_def R_Th_def C_Th_def R_0_def R_0_aged_def length_steps)

lemma euler_V_Th:
  assumes "well_shaped b num"
  shows "\<exists>x. V_Th ex_externals b num = Inr x"
  unfolding V_Th_def
proof (rule compute_thevenin_votlage_Inr)
  show "0 < length (time_control_points num)"
    using assms by (simp add: well_shaped_def Let_def)
  show "length (time_control_points num) \<le> length (I_cell b)"
    using assms by (simp add: well_shaped_def Let_def length_steps)
  show "length (time_control_points num) \<le> length (C_Th b num)"
    using assms by (simp add: well_shaped_def Let_def length_circuit)
  show "length (time_control_points num) \<le> length (R_Th b num)"
    using assms by (simp add: well_shaped_def Let_def length_circuit)
  show "length (odeint ex_externals f y (time_control_points num)) = length (time_control_points num)" for f y
    by (simp add: ex_externals_def length_euler_odeint)
  show "r \<noteq> []" if "r \<in> set (odeint ex_externals f y (time_control_points num))" for f y r
    using that by (auto simp: ex_externals_def dest: euler_odeint_rows)
qed

lemma ex_charge:
  "\<exists>x. V_Th ex_externals ex_battery ex_numerics = Inr x \<and>
       LiNiMnCo_charge ex_externals ex_battery ex_numerics =
         Inr (pack_outputs ex_externals ex_battery ex_numerics [Fin 3.9, Fin 4.2, Fin 3.6] x)"
  using euler_V_Th [OF ex_well_shaped] charge_InrI [OF ex_well_shaped ex_V_ul_map]
  by auto

lemma hot_charge:
  "\<exists>V_ul x. LiNiMnCo_charge ex_externals hot_battery ex_numerics =
         Inr (pack_outputs ex_externals hot_battery ex_numerics V_ul x)"
proof -
  have "\<exists>V_ul. V_ul_map hot_battery ex_numerics = Inr V_ul"
    by (simp add: V_ul_map_def Let_def list_ex_iff hot_battery_def ex_battery_def ex_Voltage_def)
  then show ?thesis
    using euler_V_Th [OF hot_well_shaped] charge_InrI [OF hot_well_shaped] by blast
qed

lemma hot_T_current:
  "Fin 380 < T_current hot_battery ex_numerics ! 1 \<and> T_current hot_battery ex_numerics ! 1 < Fin 390"
  by (simp add: power_divide T_current_def T_current_in_def dT_dt_def P_net_def P_net_lumped_def Q_convec_lumped_def
      Q_heat_gen_def q_dot_joule_def q_dot_entropy_def i_cell_def n_total_module_def Nn_def Np_def
      I_cell_unclamped_def n_parallel_def n_total_def n_series_def map3_def delta_S_def
      sigma_def Faraday_def T_cell_def set_above_def set_below_def
      hot_battery_def ex_battery_def ex_numerics_def fl_arith
      SOC_old_def initial_discharge_state_def np_dot_def)

subsection \<open>The masks\<close>

lemma SOC_new_not_negative: "s \<in> set (SOC_new b num) \<Longrightarrow> \<not> s < Fin 0"
proof -
  have c: "\<not> (if Fin 1 < (if x < Fin 0 then Fin 0 else x) then Fin 1
              else (if x < Fin 0 then Fin 0 else x)) < Fin 0" for x
    by (cases x) simp_all
  assume "s \<in> set (SOC_new b num)"
  then show ?thesis
    by (auto simp: SOC_new_def set_above_def set_below_def c)
qed

lemma map2_mask_id:
  "length xs = length ys \<Longrightarrow> \<forall>y\<in>set ys. \<not> Q y \<Longrightarrow>
   map2 (\<lambda>v s. if Q s then c else v) xs ys = xs"
  by (induction xs ys rule: list_induct2) simp_all

lemma V_ul_masked_id:
  assumes "length V_ul = length (time_integrate num)"
  shows "V_ul_masked b num V_ul = V_ul"
  unfolding V_ul_masked_def
  by (rule map2_mask_id) (use assms in \<open>auto simp: length_steps2 dest: SOC_new_not_negative\<close>)

lemma list_all_map2:
  assumes "list_all A xs" "list_all B ys" "\<And>x y. A x \<Longrightarrow> B y \<Longrightarrow> R (f x y)"
  shows "list_all R (map2 f xs ys)"
proof -
  have "R (f x y)" if "(x, y) \<in> set (zip xs ys)" for x y
  proof -
    from that have "x \<in> set xs" "y \<in> set ys"
      by (auto dest: set_zip_leftD set_zip_rightD)
    with assms show ?thesis by (simp add: list_all_iff)
  qed
  then show ?thesis by (auto simp: list_all_iff)
qed

lemma list_all_map3:
  assumes "list_all A xs" "list_all B ys" "list_all C zs"
    "\<And>x y z. A x \<Longrightarrow> B y \<Longrightarrow> C z \<Longrightarrow> R (f x y z)"
  shows "list_all R (map3 f xs ys zs)"
proof -
  have "R (f x y z)" if "(x, y, z) \<in> set (zip xs (zip ys zs))" for x y z
  proof -
    from that have "x \<in> set xs" "(y, z) \<in> set (zip ys zs)"
      by (auto dest: set_zip_leftD set_zip_rightD)
    then have "x \<in> set xs" "y \<in> set ys" "z \<in> set zs"
      by (auto dest: set_zip_leftD set_zip_rightD)
    with assms show ?thesis by (simp add: list_all_iff)
  qed
  then show ?thesis by (auto simp: map3_def list_all_iff)
qed

lemma list_all_mapI:
  assumes "list_all A xs" "\<And>x. A x \<Longrightarrow> R (f x)"
  shows "list_all R (map f xs)"
  using assms by (auto simp: list_all_iff)

lemma clamp_in_range:
  assumes "lo \<le> hi" "x \<noteq> NaN"
  shows "in_range lo hi (if Fin hi < (if x < Fin lo then Fin lo else x) then Fin hi
                          else (if x < Fin lo then Fin lo else x))"
  using assms by (cases x) (auto simp: in_range_def)

lemma in_range_is_fin: "in_range lo hi x \<Longrightarrow> is_fin x"
  by (cases x) (simp_all add: in_range_def)

lemma is_fin_not_NaN: "is_fin x \<Longrightarrow> x \<noteq> NaN"
  by (cases x) simp_all

lemma set_above_set_below:
  "set_above h (set_below l a) =
     map (\<lambda>x. if h < (if x < l then l else x) then h else (if x < l then l else x)) a"
  by (simp add: set_above_def set_below_def)

lemma clamped_in_range:
  assumes "lo \<le> hi" "list_all (\<lambda>x. x \<noteq> NaN) a"
  shows "list_all (in_range lo hi) (set_above (Fin hi) (set_below (Fin lo) a))"
  unfolding set_above_set_below
  using assms(2) by (rule list_all_mapI) (rule clamp_in_range [OF assms(1)])

lemma list_all_weaken: "list_all A xs \<Longrightarrow> (\<And>x. A x \<Longrightarrow> B x) \<Longrightarrow> list_all B xs"
  by (auto simp: list_all_iff)

lemma N_lengths:
  assumes "well_shaped b num"
  shows "length (time_integrate num) = length (time_control_points num)"
    "length (inputs_current (inputs b)) = length (time_control_points num)"
    "length (cell_temperature b) = length (time_control_points num)"
    "length (discharge_performance_map_Voltage b (pts b num)) = length (time_control_points num)"
    "0 < length (time_control_points num)"
  using assms by (simp_all add: well_shaped_def Let_def)

lemma nth_map3:
  assumes "k < length xs" "k < length ys" "k < length zs"
  shows "map3 f xs ys zs ! k = f (xs ! k) (ys ! k) (zs ! k)"
  using assms by (simp add: map3_def)

lemma V_ul_map_nth:
  assumes "V_ul_map b num = Inr V_ul"
  shows "V_ul = map (\<lambda>r. r ! 1) (discharge_performance_map_Voltage b (pts b num))"
  using assms by (auto simp: V_ul_map_def Let_def split: if_splits)

lemma clamped_nth:
  assumes "lo \<le> hi" "k < length a" "a ! k \<noteq> NaN"
  shows "in_range lo hi (set_above (Fin hi) (set_below (Fin lo) a) ! k)"
  using assms by (simp add: set_above_set_below clamp_in_range)

lemma one_minus_in_range: "in_range 0 1 s \<Longrightarrow> in_range 0 1 (Fin 1 - s)"
  by (cases s) (simp_all add: in_range_def minus_fl_def ovf_small)

lemma celsius_in_range: "in_range 272.65 322.65 x \<Longrightarrow> in_range 0 50 (x - Fin 272.65)"
  by (cases x) (simp_all add: in_range_def minus_fl_def ovf_small)

lemma set_above_nth_le:
  assumes "k < length a" "c \<noteq> NaN" "set_above c a ! k \<noteq> NaN"
  shows "set_above c a ! k \<le> c"
  using assms by (cases c; cases "a ! k") (auto simp: set_above_def split: if_splits)

subsection \<open>Cell current and charge throughput\<close>

lemma I_cell_unclamped_not_NaN:
  assumes "list_all is_fin (inputs_current (inputs b))" "n_parallel b \<noteq> 0"
  shows "list_all (\<lambda>x. x \<noteq> NaN) (I_cell_unclamped b)"
  unfolding I_cell_unclamped_def
  using assms(1)
proof (rule list_all_mapI)
  fix i assume "is_fin i"
  then obtain x where "i = Fin x" by (cases i) simp_all
  with assms(2) show "- i / of_py_int (n_parallel b) \<noteq> NaN"
    by (simp add: of_py_int_def ovf_not_NaN)
qed

lemma I_cell_in_range:
  assumes "list_all is_fin (inputs_current (inputs b))" "n_parallel b \<noteq> 0"
  shows "list_all (in_range 0 8) (I_cell b)"
  unfolding I_cell_def
  using I_cell_unclamped_not_NaN [OF assms] by (intro clamped_in_range) simp_all

lemma np_diff_Cons2: "np_diff (x # y # zs) = (y - x) # np_diff (y # zs)"
  by (simp add: np_diff_def)

lemma np_diff_nonneg_or_inf:
  "list_all is_fin x \<Longrightarrow> nondecreasing x \<Longrightarrow> list_all nonneg_or_inf (np_diff x)"
proof (induction x rule: nondecreasing.induct)
  case 1
  then show ?case by (simp add: np_diff_def)
next
  case (2 x)
  then show ?case by (simp add: np_diff_def)
next
  case (3 x y zs)
  then have "nonneg_or_inf (y - x)"
    by (cases x; cases y) (simp_all add: minus_fl_def ovf_nonneg)
  with 3 show ?case by (simp add: np_diff_Cons2)
qed

lemma nonneg_or_inf_fin: "nonneg_or_inf d \<Longrightarrow> is_fin d \<Longrightarrow> nonneg d"
  by (cases d) simp_all

lemma np_diff_nonneg:
  assumes "list_all is_fin x" "nondecreasing x" "list_all is_fin (np_diff x)"
  shows "list_all nonneg (np_diff x)"
  using np_diff_nonneg_or_inf [OF assms(1,2)] assms(3)
  by (auto simp: list_all_iff intro: nonneg_or_inf_fin)

lemma pair_sum_in_range: "in_range 0 8 a \<Longrightarrow> in_range 0 8 b \<Longrightarrow> in_range 0 16 (a + b)"
  by (cases a; cases b) (simp_all add: in_range_def ovf_small)

lemma pair_sums_in_range:
  assumes "list_all (in_range 0 8) y"
  shows "list_all (in_range 0 16) (map2 (+) (tl y) (butlast y))"
proof (rule list_all_map2)
  show "list_all (in_range 0 8) (tl y)"
    using assms by (cases y) (simp_all add: list_all_iff)
  show "list_all (in_range 0 8) (butlast y)"
    using assms by (auto simp: list_all_iff dest: in_set_butlastD)
qed (rule pair_sum_in_range)

lemma trapezoid_nonneg_or_inf:
  assumes "nonneg d" "in_range 0 16 s"
  shows "nonneg_or_inf (d * s / Fin 2)"
proof -
  from assms obtain x y where d: "d = Fin x" "0 \<le> x" and s: "s = Fin y" "0 \<le> y"
    by (cases d; cases s) (simp_all add: in_range_def)
  then have "nonneg_or_inf (d * s)" by (simp add: ovf_nonneg)
  then show ?thesis
    by (cases "d * s") (simp_all add: ovf_nonneg)
qed

lemma plus_nonneg_or_inf:
  assumes "nonneg_or_inf a" "nonneg_or_inf b"
  shows "nonneg_or_inf (a + b) \<and> a \<le> a + b"
proof (cases a)
  case (Fin x)
  show ?thesis
  proof (cases b)
    case (Fin y)
    with \<open>a = Fin x\<close> assms have xy: "0 \<le> x" "0 \<le> y" by simp_all
    then have "Fin x \<le> ovf (x + y)"
      using overflow_threshold_large by (auto simp: ovf_def)
    with xy \<open>a = Fin x\<close> Fin show ?thesis by (simp add: ovf_nonneg)
  qed (use assms \<open>a = Fin x\<close> in simp_all)
next
  case PInf
  with assms show ?thesis by (cases b) simp_all
qed (use assms in simp_all)

lemma cumsum_from_props:
  "nonneg_or_inf acc \<Longrightarrow> list_all nonneg_or_inf as \<Longrightarrow>
   list_all nonneg_or_inf (cumsum_from acc as) \<and> nondecreasing (acc # cumsum_from acc as)"
proof (induction as arbitrary: acc)
  case Nil
  then show ?case by simp
next
  case (Cons a as)
  then have s: "nonneg_or_inf (acc + a)" "acc \<le> acc + a"
    using plus_nonneg_or_inf [of acc a] by simp_all
  from Cons.IH [OF s(1)] Cons.prems s show ?case by simp
qed

lemma np_cumsum_props:
  assumes "list_all nonneg_or_inf a"
  shows "list_all nonneg_or_inf (np_cumsum a) \<and> nondecreasing (np_cumsum a)"
proof (cases a)
  case Nil
  then show ?thesis by (simp add: np_cumsum_def)
next
  case (Cons x xs)
  with assms cumsum_from_props [of x xs] show ?thesis by (simp add: np_cumsum_def)
qed

lemma cumtrapz_props:
  assumes "list_all (in_range 0 8) y" "list_all nonneg (np_diff x)"
  shows "list_all nonneg_or_inf (cumtrapz y x) \<and> nondecreasing (cumtrapz y x)"
  unfolding cumtrapz_def
proof (rule np_cumsum_props)
  show "list_all nonneg_or_inf
      (map2 (\<lambda>d s. d * s / Fin 2) (np_diff x) (map2 (+) (tl y) (butlast y)))"
    using assms(2) pair_sums_in_range [OF assms(1)]
    by (rule list_all_map2) (rule trapezoid_nonneg_or_inf)
qed

lemma nondecreasing_map:
  assumes "\<And>x y. A x \<Longrightarrow> A y \<Longrightarrow> x \<le> y \<Longrightarrow> g x \<le> g y"
  shows "list_all A xs \<Longrightarrow> nondecreasing xs \<Longrightarrow> nondecreasing (map g xs)"
  by (induction xs rule: nondecreasing.induct) (simp_all add: assms)

lemma nondecreasing_Cons:
  "nondecreasing (x # xs) = (case xs of [] \<Rightarrow> True | y # ys \<Rightarrow> x \<le> y \<and> nondecreasing xs)"
  by (cases xs) simp_all

lemma divide_hr_nonneg_or_inf:
  assumes "nonneg_or_inf a" "0 < hr"
  shows "nonneg_or_inf (a / Fin hr)"
  using assms by (cases a) (simp_all add: ovf_nonneg)

lemma divide_hr_mono:
  assumes "nonneg_or_inf a" "nonneg_or_inf b" "a \<le> b" "0 < hr"
  shows "a / Fin hr \<le> b / Fin hr"
proof (cases b)
  case (Fin y)
  with assms obtain x where "a = Fin x" "x \<le> y" by (cases a) simp_all
  with Fin assms(4) show ?thesis by (simp add: ovf_mono divide_right_mono)
next
  case PInf
  have "a / Fin hr \<noteq> NaN"
    using divide_hr_nonneg_or_inf [OF assms(1,4)] by (cases "a / Fin hr") simp_all
  with PInf assms(4) show ?thesis by (cases "a / Fin hr") simp_all
qed (use assms in simp_all)

lemma plus_left_mono:
  assumes "nonneg_or_inf u" "nonneg_or_inf v" "u \<le> v"
  shows "Fin q + u \<le> Fin q + v"
proof (cases v)
  case (Fin y)
  with assms obtain x where "u = Fin x" "x \<le> y" by (cases u) simp_all
  with Fin show ?thesis by (simp add: ovf_mono)
next
  case PInf
  have "Fin q + u \<noteq> NaN"
    using assms(1) by (cases u) (simp_all add: ovf_not_NaN)
  with PInf show ?thesis by (cases "Fin q + u") simp_all
qed (use assms in simp_all)

lemma plus_left_first:
  assumes "finite_float (Fin q)" "nonneg_or_inf u"
  shows "Fin q \<le> Fin q + u"
proof (cases u)
  case (Fin x)
  with assms have "0 \<le> x" "- overflow_threshold < q" by simp_all
  then have "Fin q \<le> ovf (q + x)" by (auto simp: ovf_def)
  with Fin show ?thesis by simp
qed (use assms in simp_all)

lemma Q_total_nondecreasing:
  assumes q: "finite_float q" and hr: "0 < hr"
    and c: "list_all nonneg_or_inf cs" "nondecreasing cs"
  shows "nondecreasing (q # map (\<lambda>c. q + c / Fin hr) cs)"
proof -
  from q obtain r where r: "q = Fin r" by (cases q) simp_all
  have mono: "q + a / Fin hr \<le> q + b / Fin hr"
    if "nonneg_or_inf a" "nonneg_or_inf b" "a \<le> b" for a b
    unfolding r using that hr
    by (intro plus_left_mono divide_hr_mono divide_hr_nonneg_or_inf)
  have first: "q \<le> q + a / Fin hr" if "nonneg_or_inf a" for a
    using q that hr unfolding r by (intro plus_left_first divide_hr_nonneg_or_inf)
  have "nondecreasing (map (\<lambda>c. q + c / Fin hr) cs)"
    using c by (rule nondecreasing_map [of nonneg_or_inf, rotated]) (rule mono)
  with c(1) first show ?thesis
    by (cases cs) (simp_all add: nondecreasing_Cons)
qed

subsection \<open>The exact solution of the example circuit\<close>

lemma exp_bounds: "1 - exp (- 1) < 0.99 * (1 - exp (- (5::real)))"
proof -
  have e2: "2 \<le> exp (1::real)" using exp_ge_add_one_self [of "1::real"] by simp
  have e3: "exp (1::real) \<le> 3" by (rule exp_le)
  have "exp (- 1) = 1 / exp (1::real)" by (simp add: exp_minus inverse_eq_divide)
  with e3 have a: "1 / 3 \<le> exp (- (1::real))"
    by (simp add: frac_le)
  have "exp (5::real) = exp 1 ^ 5" by (simp add: exp_of_nat_mult [symmetric])
  with power_mono [OF e2, of 5] have "2 ^ 5 \<le> exp (5::real)" by simp
  moreover have "exp (- 5) = 1 / exp (5::real)" by (simp add: exp_minus inverse_eq_divide)
  ultimately have b: "exp (- (5::real)) \<le> 1 / 32"
    by (simp add: frac_le)
  from a b show ?thesis by simp
qed

lemma exp_neg_unit: "x \<le> 0 \<Longrightarrow> 0 < exp x \<and> exp x \<le> (1::real)"
  by simp

lemma ovf_exp_neg:
  assumes "x \<le> 0"
  shows "ovf (exp x) = Fin (exp x)" "ovf (- exp x) = Fin (- exp x)"
    "ovf (1 - exp x) = Fin (1 - exp x)"
proof -
  from exp_neg_unit [OF assms]
  have "\<bar>exp x\<bar> \<le> 1000000000000" "\<bar>- exp x\<bar> \<le> 1000000000000"
    "\<bar>1 - exp x\<bar> \<le> 1000000000000"
    by linarith+
  then show "ovf (exp x) = Fin (exp x)" "ovf (- exp x) = Fin (- exp x)"
    "ovf (1 - exp x) = Fin (1 - exp x)"
    by (simp_all only: ovf_small)
qed

lemma rc_solution:
  "odeint rc_externals (\<lambda>z s. model z s (Fin 1) (Fin 1) (Fin 1)) (Fin 0) [Fin 0, Fin 1, Fin 5]
     = [[Fin 0], [Fin (1 - exp (- 1))], [Fin (1 - exp (- 5))]]"
  by (simp add: rc_externals_def linear_exact_odeint_def model_def Let_def minus_fl_def
      ovf_small ovf_exp_neg)

subsection \<open>The charged example\<close>

lemma hot_I_cell: "I_cell hot_battery = [Fin 8, Fin 8, Fin 8]"
  by (simp add: I_cell_def I_cell_unclamped_def set_above_def set_below_def n_parallel_def
      hot_battery_def ex_battery_def fl_arith)

lemma hot_Q_total: "Q_total ex_externals hot_battery ex_numerics = [Fin 0, Fin 4, Fin 8]"
  by (simp add: Q_total_def hot_I_cell cumtrapz_def np_diff_def np_cumsum_def
      ex_numerics_def ex_externals_def fl_arith)
     (simp add: hot_battery_def ex_battery_def fl_arith)

subsection \<open>The example with a NaN power sample\<close>

lemma nan_well_shaped: "well_shaped nan_battery ex_numerics"
  by (simp add: well_shaped_def Let_def length_pts nan_battery_def ex_battery_def ex_numerics_def
      ex_Voltage_def)

lemma nan_charge:
  "\<exists>V_ul x. LiNiMnCo_charge ex_externals nan_battery ex_numerics =
         Inr (pack_outputs ex_externals nan_battery ex_numerics V_ul x)"
proof -
  have "\<exists>V_ul. V_ul_map nan_battery ex_numerics = Inr V_ul"
    by (simp add: V_ul_map_def Let_def list_ex_iff nan_battery_def ex_battery_def ex_Voltage_def)
  then show ?thesis
    using euler_V_Th [OF nan_well_shaped] charge_InrI [OF nan_well_shaped] by blast
qed

lemma NaN_power: "0 < n \<Longrightarrow> NaN ^ n = NaN"
  by (cases n) simp_all

lemma nan_E_bat: "E_bat nan_battery ex_numerics = [NaN, NaN, NaN]"
  by (simp add: E_bat_def np_dot_def P_def P_loss_def Q_heat_gen_def q_dot_joule_def
      q_dot_entropy_def i_cell_def I_cell_unclamped_def n_parallel_def n_total_def n_series_def
      map3_def delta_S_def sigma_def Faraday_def T_cell_def set_above_def set_below_def
      SOC_old_def initial_discharge_state_def
      nan_battery_def ex_battery_def ex_numerics_def fl_arith NaN_power)

lemma nan_E_current: "E_current nan_battery ex_numerics = [NaN, NaN, NaN]"
  by (simp add: E_current_def nan_E_bat sanitize_E_bat_NaN set_above_def)
     (simp add: nan_battery_def ex_battery_def)

subsection \<open>The example with an overflow\<close>

lemma overflow_finite_energy_inputs: "finite_energy_inputs overflow_battery ex_numerics"
  by (simp add: finite_energy_inputs_def overflow_battery_def ex_battery_def ex_numerics_def
      n_parallel_def overflow_threshold_def)

lemma overflow_well_shaped: "well_shaped overflow_battery ex_numerics"
  by (simp add: well_shaped_def Let_def length_pts overflow_battery_def ex_battery_def
      ex_numerics_def ex_Voltage_def)

lemma overflow_charge:
  "\<exists>V_ul x. LiNiMnCo_charge ex_externals overflow_battery ex_numerics =
         Inr (pack_outputs ex_externals overflow_battery ex_numerics V_ul x)"
proof -
  have "\<exists>V_ul. V_ul_map overflow_battery ex_numerics = Inr V_ul"
    by (simp add: V_ul_map_def Let_def list_ex_iff overflow_battery_def ex_battery_def
        ex_Voltage_def)
  then show ?thesis
    using euler_V_Th [OF overflow_well_shaped] charge_InrI [OF overflow_well_shaped] by blast
qed

lemma overflow_threshold_below: "overflow_threshold < 2 * 10 ^ 308"
  by (simp add: overflow_threshold_def)

lemma ovf_large: "2 * 10 ^ 308 \<le> r \<Longrightarrow> ovf r = PInf"
  using overflow_threshold_below by (simp add: ovf_def)

lemma ovf_large_neg: "r \<le> - (2 * 10 ^ 308) \<Longrightarrow> ovf r = MInf"
  using overflow_threshold_below overflow_threshold_large by (simp add: ovf_def)

lemma ovf_medium: "\<bar>r\<bar> \<le> 10 ^ 307 \<Longrightarrow> ovf r = Fin r"
  using overflow_threshold_large by (intro ovf_Fin) linarith

lemma overflow_initial_discharge_state:
  "initial_discharge_state overflow_battery ex_numerics = [Fin 180000, NaN, NaN]"
  by (simp add: initial_discharge_state_def np_dot_def overflow_battery_def ex_battery_def
      ex_numerics_def ovf_small ovf_large ovf_large_neg)

lemma overflow_SOC_old: "SOC_old overflow_battery ex_numerics = [Fin 0.5, NaN, NaN]"
  by (simp add: SOC_old_def overflow_initial_discharge_state set_above_def set_below_def)
     (simp add: overflow_battery_def ex_battery_def ovf_small)

lemma overflow_P: "P overflow_battery ex_numerics = [Fin (10 ^ 306), NaN, NaN]"
  by (simp add: P_def P_loss_def Q_heat_gen_def q_dot_joule_def q_dot_entropy_def i_cell_def
      map3_def delta_S_def overflow_SOC_old NaN_power fl_arith)
     (simp add: I_cell_unclamped_def n_parallel_def n_total_def n_series_def
      sigma_def Faraday_def T_cell_def set_above_def set_below_def
      overflow_battery_def ex_battery_def fl_arith ovf_medium)

lemma overflow_E_bat: "E_bat overflow_battery ex_numerics = [NaN, NaN, NaN]"
  by (simp add: E_bat_def overflow_P np_dot_def)
     (simp add: ex_numerics_def ovf_small ovf_large)

lemma overflow_E_current: "E_current overflow_battery ex_numerics = [NaN, NaN, NaN]"
  by (simp add: E_current_def overflow_E_bat sanitize_E_bat_NaN set_above_def)
     (simp add: overflow_battery_def ex_battery_def)

lemma overflow_SOC_new: "SOC_new overflow_battery ex_numerics = [NaN, NaN, NaN]"
  by (simp add: SOC_new_def overflow_E_current set_above_def set_below_def)

subsection \<open>The example with a NaN current sample\<close>

lemma nan_current_well_shaped: "well_shaped nan_current_battery ex_numerics"
  by (simp add: well_shaped_def Let_def length_pts nan_current_battery_def ex_battery_def
      ex_numerics_def ex_Voltage_def)

lemma nan_current_charge:
  "\<exists>V_ul x. LiNiMnCo_charge ex_externals nan_current_battery ex_numerics =
         Inr (pack_outputs ex_externals nan_current_battery ex_numerics V_ul x)"
proof -
  have "\<exists>V_ul. V_ul_map nan_current_battery ex_numerics = Inr V_ul"
    by (simp add: V_ul_map_def Let_def list_ex_iff nan_current_battery_def ex_battery_def
        ex_Voltage_def)
  then show ?thesis
    using euler_V_Th [OF nan_current_well_shaped] charge_InrI [OF nan_current_well_shaped]
    by blast
qed

lemma nan_current_I_cell: "I_cell nan_current_battery = [Fin 0, NaN, Fin 0]"
  by (simp add: I_cell_def I_cell_unclamped_def set_above_def set_below_def n_parallel_def
      nan_current_battery_def ex_battery_def fl_arith)

lemma nan_current_Q_total:
  "Q_total ex_externals nan_current_battery ex_numerics = [Fin 0, NaN, NaN]"
  by (simp add: Q_total_def nan_current_I_cell cumtrapz_def np_diff_def np_cumsum_def
      ex_numerics_def ex_externals_def fl_arith)
     (simp add: nan_current_battery_def ex_battery_def fl_arith)

text \<open>A gap between two control points that overflows makes the trapezoid term of a zero
  current NaN.\<close>

lemma cumtrapz_wide_gap:
  "cumtrapz [Fin 0, Fin 0] [Fin (- (10 ^ 308)), Fin (10 ^ 308)] = [NaN]"
  by (simp add: cumtrapz_def np_diff_def np_cumsum_def minus_fl_def ovf_small ovf_large)

subsection \<open>Lengths of the thermal stages\<close>

lemma N_lengths_fields:
  assumes "well_shaped b num"
  shows "length (inputs_power_in (inputs b)) = length (time_control_points num)"
    "length (ambient_temperature b) = length (time_control_points num)"
    "length (temperature b) = length (time_control_points num)"
  using assms by (simp_all add: well_shaped_def Let_def)

lemma length_heat:
  "length (delta_S b num) = length (time_integrate num)"
  "length (i_cell b) = length (inputs_current (inputs b))"
  "length (q_dot_joule b) = length (inputs_current (inputs b))"
  "length (q_dot_entropy b num) =
     min (length (cell_temperature b))
       (min (length (time_integrate num)) (length (inputs_current (inputs b))))"
  by (simp_all add: delta_S_def i_cell_def q_dot_joule_def q_dot_entropy_def length_map3
      length_steps)

lemma length_heat_well_shaped:
  assumes "well_shaped b num"
  shows "length (delta_S b num) = length (time_control_points num)"
    "length (i_cell b) = length (time_control_points num)"
    "length (q_dot_joule b) = length (time_control_points num)"
    "length (q_dot_entropy b num) = length (time_control_points num)"
    "length (Q_heat_gen b num) = length (time_control_points num)"
    "length (Q_convec_lumped b) = length (time_control_points num)"
    "length (P_net_lumped b num) = length (time_control_points num)"
  using N_lengths [OF assms] N_lengths_fields [OF assms]
  by (simp_all add: length_heat Q_heat_gen_def Q_convec_lumped_def P_net_lumped_def length_steps)

lemma overflow_threshold_pos: "0 < overflow_threshold"
  using overflow_threshold_large by simp

section \<open>The claims\<close>

text \<open>
  C1 (the code departs from the claim). The claim: when the integrated energy vector has
  NaN at some points and a finite value at others, every entry of the sanitized vector, and
  so of the current energy, is the finite maximum; when every entry is NaN the sanitized
  vector is all zeros. The code: \<^verbatim>\<open>np.max\<close> answers NaN as soon as one entry is NaN, and the
  test for the all-NaN case is \<^verbatim>\<open>np.isnan\<close> of a truth value, which is never true. On
  \<open>[NaN, 1]\<close> and on \<open>[NaN, NaN]\<close> the sanitized vector is NaN at every point; and on the
  example cell with a power series that is NaN at one control point the model runs and the
  current energy it writes is NaN at every control point.
\<close>

theorem C1_sanitize_E_bat_keeps_NaN:
  "sanitize_E_bat [NaN, Fin 1] = [NaN, NaN] \<and> sanitize_E_bat [NaN, NaN] = [NaN, NaN] \<and>
   \<not> isl (LiNiMnCo_charge ex_externals nan_battery ex_numerics) \<and>
   current_energy (projr (LiNiMnCo_charge ex_externals nan_battery ex_numerics)) = [NaN, NaN, NaN]"
proof -
  from nan_charge obtain V_ul x where
    "LiNiMnCo_charge ex_externals nan_battery ex_numerics =
       Inr (pack_outputs ex_externals nan_battery ex_numerics V_ul x)"
    by blast
  then show ?thesis
    by (simp add: pack_outputs_fields nan_E_current sanitize_E_bat_NaN)
qed

text \<open>
  C2 (the code departs from the claim). The claim: with a constant current and fixed
  \<open>R_Th\<close>, \<open>C_Th\<close> the integrator follows the charging curve of the circuit towards \<open>I * R_Th\<close>
  and agrees with the closed form within 1% at five time constants. The code solves the
  equation from \<open>V_th0\<close> over all the control points in every pass of its loop and keeps
  \<^verbatim>\<open>z[1]\<close>, the solution at the second control point, whatever the point \<open>i\<close> (lemma
  \<open>compute_thevenin_votlage_entry\<close>). With \<open>I = R_Th = C_Th = 1\<close>, \<open>V_th0 = 0\<close>, the control points
  0, 1, 5 and the exact solution \<open>1 - exp (- t)\<close> for \<^verbatim>\<open>odeint\<close>, the output at the last point,
  five time constants in, is \<open>1 - exp (- 1)\<close>, more than 1% below the closed form
  \<open>1 - exp (- 5)\<close>.
\<close>

theorem C2_thevenin_voltage_constant_after_first_point:
  "compute_thevenin_votlage rc_externals (Fin 0) [Fin 1, Fin 1, Fin 1] [Fin 1, Fin 1, Fin 1]
     [Fin 1, Fin 1, Fin 1] rc_numerics
     = Inr [Fin 0, Fin (1 - exp (- 1)), Fin (1 - exp (- 1))] \<and>
   1 - exp (- 1) < 0.99 * (1 - exp (- (5::real)))"
proof -
  have "[1..<3] = [1, 2]" by (simp add: upt_rec)
  then have "compute_thevenin_votlage rc_externals (Fin 0) [Fin 1, Fin 1, Fin 1] [Fin 1, Fin 1, Fin 1]
     [Fin 1, Fin 1, Fin 1] rc_numerics
     = Inr [Fin 0, Fin (1 - exp (- 1)), Fin (1 - exp (- 1))]"
    by (simp add: compute_thevenin_votlage_def rc_numerics_def Let_def thevenin_point_def
        rc_solution)
  with exp_bounds show ?thesis by blast
qed

text \<open>
  C3, the claim as stated fails. The claim: the cell and pack temperature that the model
  outputs lies in [272.15 K, 322.15 K] for any heat generation. On the example cell charged
  with 10 A for an hour without cooling the model runs and outputs a temperature above
  322.15 K at the second control point, as cell temperature and as pack temperature.
\<close>

theorem C3_output_temperature_above_band:
  "\<not> isl (LiNiMnCo_charge ex_externals hot_battery ex_numerics) \<and>
   Fin 322.15 < cell_temperature (projr (LiNiMnCo_charge ex_externals hot_battery ex_numerics)) ! 1 \<and>
   Fin 322.15 < pack_temperature (projr (LiNiMnCo_charge ex_externals hot_battery ex_numerics)) ! 1 \<and>
   \<not> in_range 272.15 322.15
       (cell_temperature (projr (LiNiMnCo_charge ex_externals hot_battery ex_numerics)) ! 1)"
proof -
  from hot_charge obtain V_ul x where
    "LiNiMnCo_charge ex_externals hot_battery ex_numerics =
       Inr (pack_outputs ex_externals hot_battery ex_numerics V_ul x)"
    by blast
  moreover have "Fin 322.15 < T_current hot_battery ex_numerics ! 1"
    using hot_T_current by (cases "T_current hot_battery ex_numerics ! 1") simp_all
  moreover have "\<not> in_range 272.15 322.15 (T_current hot_battery ex_numerics ! 1)"
    using hot_T_current
    by (cases "T_current hot_battery ex_numerics ! 1") (simp_all add: in_range_def)
  ultimately show ?thesis by (simp add: pack_outputs_fields)
qed

text \<open>
  C3, amended. The band of the source is [272.65 K, 322.65 K] and it is applied to the
  prior cell temperature that the model reads, not to the temperature it outputs. At every
  control point where the prior cell temperature is not NaN, the clamped value \<open>T_cell\<close>
  lies in [272.65, 322.65]. It is the clamped value that enters the entropic heat rate
  and, through it, the generated heat and the output \<open>heat_energy_generated\<close>; that enters
  the convective loss of a single cell and so the net power and the temperature rate; and
  that is handed to the performance map, less 272.65, between 0 and 50. The temperature
  written to the outputs is the first entry of \<^verbatim>\<open>battery.temperature\<close> plus the integrated
  temperature rate, without a clamp; when \<^verbatim>\<open>battery.temperature\<close> is the array of the cell
  temperature, that first entry is the clamped one. The pack temperature is the same array.
\<close>

theorem C3_prior_cell_temperature_clamped:
  assumes "LiNiMnCo_charge ext b num = Inr out"
    and "k < length (time_control_points num)"
    and "cell_temperature b ! k \<noteq> NaN"
  shows "in_range 272.65 322.65 (T_cell b ! k) \<and>
         pts b num ! k ! 1 = T_cell b ! k - Fin 272.65 \<and>
         in_range 0 50 (pts b num ! k ! 1) \<and>
         q_dot_entropy b num ! k =
           (- (T_cell b ! k)) * delta_S b num ! k * i_cell b ! k / (Fin 1 * Faraday) \<and>
         Q_heat_gen b num ! k =
           (q_dot_joule b ! k + q_dot_entropy b num ! k) * cell_surface_area (cell b) \<and>
         heat_energy_generated out ! k = Q_heat_gen b num ! k * of_py_int (n_total_module b) \<and>
         (n_total b = 1 \<longrightarrow>
            P_net b num ! k =
              (Q_heat_gen b num ! k
                 - heat_transfer_coefficient b * cell_surface_area (cell b)
                     * (T_cell b ! k - ambient_temperature b ! k))
                * of_py_int (n_total b) \<and>
            dT_dt b num ! k =
              P_net b num ! k
                / (cell_mass (cell b) * of_py_int (n_total_module b)
                     * cell_specific_heat_capacity (cell b))) \<and>
         cell_temperature out ! k =
           (if temperature_is_cell_temperature b then T_cell b ! 0 else temperature b ! 0)
             + np_dot (time_integrate num) (dT_dt b num) ! k \<and>
         pack_temperature out ! k = cell_temperature out ! k"
proof -
  from charge_InrD [OF assms(1)] obtain V_ul x where
    w: "well_shaped b num" and out: "out = pack_outputs ext b num V_ul x"
    by blast
  note N = N_lengths [OF w]
  note M = N_lengths_fields [OF w]
  note H = length_heat_well_shaped [OF w]
  from assms(2) N have k: "k < length (time_integrate num)" "k < length (cell_temperature b)"
    "k < length (inputs_current (inputs b))"
    by simp_all
  have 1: "in_range 272.65 322.65 (T_cell b ! k)"
    unfolding T_cell_def using k(2) assms(3) by (intro clamped_nth) simp_all
  have 2: "pts b num ! k ! 1 = T_cell b ! k - Fin 272.65"
    using k by (simp add: pts_def nth_map3 length_steps T_cell_Celcius_def)
  have 3: "T_current b num ! k =
      (if temperature_is_cell_temperature b then T_cell b ! 0 else temperature b ! 0)
        + np_dot (time_integrate num) (dT_dt b num) ! k"
    using k by (simp add: T_current_def T_current_in_def length_np_dot)
  have 4: "in_range 0 50 (pts b num ! k ! 1)"
    unfolding 2 using 1 by (rule celsius_in_range)
  have 5: "q_dot_entropy b num ! k =
      (- (T_cell b ! k)) * delta_S b num ! k * i_cell b ! k / (Fin 1 * Faraday)"
    using assms(2) by (simp add: q_dot_entropy_def nth_map3 H length_steps N)
  have 6: "Q_heat_gen b num ! k =
      (q_dot_joule b ! k + q_dot_entropy b num ! k) * cell_surface_area (cell b)"
    using assms(2) by (simp add: Q_heat_gen_def H)
  have 7: "map (\<lambda>Q. Q * of_py_int (n_total_module b)) (Q_heat_gen b num) ! k =
      Q_heat_gen b num ! k * of_py_int (n_total_module b)"
    using assms(2) by (simp add: H)
  have 8: "P_net b num ! k =
      (Q_heat_gen b num ! k
         - heat_transfer_coefficient b * cell_surface_area (cell b)
             * (T_cell b ! k - ambient_temperature b ! k))
        * of_py_int (n_total b)" if "n_total b = 1"
    using assms(2) that
    by (simp add: P_net_def P_net_lumped_def Q_convec_lumped_def H M length_steps N)
  have 9: "dT_dt b num ! k =
      P_net b num ! k
        / (cell_mass (cell b) * of_py_int (n_total_module b)
             * cell_specific_heat_capacity (cell b))" if "n_total b = 1"
    using assms(2) that by (simp add: dT_dt_def P_net_def H)
  from 1 2 3 4 5 6 7 8 9 show ?thesis by (simp add: out pack_outputs_fields)
qed

text \<open>
  C3, witness: the third control point of the charged example, a single cell whose prior
  cell temperature is 400 K there. The model runs, the clamped value is 322.65 K, the
  performance map is asked at 50, and the net power is the generated heat less the
  convective loss at the clamped temperature.
\<close>

theorem C3_prior_cell_temperature_clamped_witness:
  "\<not> isl (LiNiMnCo_charge ex_externals hot_battery ex_numerics) \<and>
   cell_temperature hot_battery ! 2 = Fin 400 \<and>
   n_total hot_battery = 1 \<and>
   T_cell hot_battery ! 2 = Fin 322.65 \<and>
   in_range 272.65 322.65 (T_cell hot_battery ! 2) \<and>
   pts hot_battery ex_numerics ! 2 ! 1 = Fin 50 \<and>
   in_range 0 50 (pts hot_battery ex_numerics ! 2 ! 1) \<and>
   P_net hot_battery ex_numerics ! 2 =
     (Q_heat_gen hot_battery ex_numerics ! 2
        - heat_transfer_coefficient hot_battery * cell_surface_area (cell hot_battery)
            * (T_cell hot_battery ! 2 - ambient_temperature hot_battery ! 2))
       * of_py_int (n_total hot_battery)"
proof -
  from hot_charge obtain V_ul x where
    r: "LiNiMnCo_charge ex_externals hot_battery ex_numerics =
       Inr (pack_outputs ex_externals hot_battery ex_numerics V_ul x)"
    by blast
  have k: "2 < length (time_control_points ex_numerics)" by (simp add: ex_numerics_def)
  have c: "cell_temperature hot_battery ! 2 = Fin 400"
    by (simp add: hot_battery_def ex_battery_def)
  then have n: "cell_temperature hot_battery ! 2 \<noteq> NaN" by simp
  have t: "T_cell hot_battery ! 2 = Fin 322.65"
    by (simp add: T_cell_def set_above_def set_below_def hot_battery_def ex_battery_def)
  have m: "n_total hot_battery = 1"
    by (simp add: n_total_def n_series_def n_parallel_def hot_battery_def ex_battery_def)
  from C3_prior_cell_temperature_clamped [OF r k n]
  have "in_range 272.65 322.65 (T_cell hot_battery ! 2)"
    and "pts hot_battery ex_numerics ! 2 ! 1 = T_cell hot_battery ! 2 - Fin 272.65"
    and "in_range 0 50 (pts hot_battery ex_numerics ! 2 ! 1)"
    and "n_total hot_battery = 1 \<longrightarrow>
      P_net hot_battery ex_numerics ! 2 =
       (Q_heat_gen hot_battery ex_numerics ! 2
          - heat_transfer_coefficient hot_battery * cell_surface_area (cell hot_battery)
              * (T_cell hot_battery ! 2 - ambient_temperature hot_battery ! 2))
         * of_py_int (n_total hot_battery) \<and>
      dT_dt hot_battery ex_numerics ! 2 =
        P_net hot_battery ex_numerics ! 2
          / (cell_mass (cell hot_battery) * of_py_int (n_total_module hot_battery)
               * cell_specific_heat_capacity (cell hot_battery))"
    by blast+
  with r c t m show ?thesis
    by (simp add: fl_arith)
qed

text \<open>
  C4, the claim as stated fails. The claim: the updated current energy lies in
  \<open>[0, max_energy]\<close> at every control point, for every finite input. On the example cell at
  rest, whose power series draws 1000 W at the last point, the model runs and the current
  energy at the third control point is -180000 J, below zero.
\<close>

theorem C4_current_energy_negative:
  "\<not> isl (LiNiMnCo_charge ex_externals ex_battery ex_numerics) \<and>
   current_energy (projr (LiNiMnCo_charge ex_externals ex_battery ex_numerics)) ! 2 = Fin (- 180000) \<and>
   current_energy (projr (LiNiMnCo_charge ex_externals ex_battery ex_numerics)) ! 2 < Fin 0 \<and>
   \<not> in_range 0 360000
       (current_energy (projr (LiNiMnCo_charge ex_externals ex_battery ex_numerics)) ! 2)"
proof -
  from ex_charge obtain x where
    "LiNiMnCo_charge ex_externals ex_battery ex_numerics =
       Inr (pack_outputs ex_externals ex_battery ex_numerics [Fin 3.9, Fin 4.2, Fin 3.6] x)"
    by blast
  then show ?thesis by (simp add: pack_outputs_fields ex_E_current in_range_def)
qed

text \<open>
  C4, amended. The source re-clamps the energy from above only (line 228): at every
  control point the updated current energy is the sanitized integrated energy plus the
  first prior energy, replaced by \<open>max_energy\<close> where it is above \<open>max_energy\<close>. So wherever
  the updated current energy is not NaN (and \<open>max_energy\<close> is not NaN) it is at most
  \<open>max_energy\<close>; there is no lower bound.
\<close>

theorem C4_current_energy_upper_bound:
  assumes "LiNiMnCo_charge ext b num = Inr out"
    and "k < length (time_control_points num)"
    and "max_energy b \<noteq> NaN"
    and "current_energy out ! k \<noteq> NaN"
  shows "current_energy out ! k \<le> max_energy b \<and>
         current_energy out ! k =
           (if max_energy b < sanitize_E_bat (E_bat b num) ! k + current_energy b ! 0
            then max_energy b
            else sanitize_E_bat (E_bat b num) ! k + current_energy b ! 0)"
proof -
  from charge_InrD [OF assms(1)] obtain V_ul x where
    w: "well_shaped b num" and out: "out = pack_outputs ext b num V_ul x"
    by blast
  from assms(2) N_lengths(1) [OF w] have k: "k < length (time_integrate num)" by simp
  let ?e = "map (\<lambda>e. e + current_energy b ! 0) (sanitize_E_bat (E_bat b num))"
  have l: "k < length ?e" using k by (simp add: length_sanitize_E_bat length_steps)
  have o: "current_energy out = set_above (max_energy b) ?e"
    by (simp add: out pack_outputs_fields E_current_def)
  have "set_above (max_energy b) ?e ! k \<le> max_energy b"
    using l assms(3) assms(4) [unfolded o] by (rule set_above_nth_le)
  moreover have "set_above (max_energy b) ?e ! k =
      (if max_energy b < sanitize_E_bat (E_bat b num) ! k + current_energy b ! 0
       then max_energy b
       else sanitize_E_bat (E_bat b num) ! k + current_energy b ! 0)"
    using l by (simp add: set_above_def)
  ultimately show ?thesis by (simp add: o)
qed

text \<open>
  C4, witness: the second control point of the example cell at rest, where the integrated
  energy plus the prior energy is 540000 J, above the maximum, and the output is the
  maximum, 360000 J.
\<close>

theorem C4_current_energy_upper_bound_witness:
  "\<not> isl (LiNiMnCo_charge ex_externals ex_battery ex_numerics) \<and>
   max_energy ex_battery = Fin 360000 \<and>
   sanitize_E_bat (E_bat ex_battery ex_numerics) ! 1 + current_energy ex_battery ! 0 = Fin 540000 \<and>
   current_energy (projr (LiNiMnCo_charge ex_externals ex_battery ex_numerics)) ! 1 = Fin 360000 \<and>
   current_energy (projr (LiNiMnCo_charge ex_externals ex_battery ex_numerics)) ! 1 \<le> max_energy ex_battery"
proof -
  from ex_charge obtain x where
    r: "LiNiMnCo_charge ex_externals ex_battery ex_numerics =
       Inr (pack_outputs ex_externals ex_battery ex_numerics [Fin 3.9, Fin 4.2, Fin 3.6] x)"
    by blast
  have k: "1 < length (time_control_points ex_numerics)" by (simp add: ex_numerics_def)
  have m: "max_energy ex_battery = Fin 360000" by (simp add: ex_battery_def)
  then have m': "max_energy ex_battery \<noteq> NaN" by simp
  have c: "current_energy (pack_outputs ex_externals ex_battery ex_numerics [Fin 3.9, Fin 4.2, Fin 3.6] x) ! 1 \<noteq> NaN"
    by (simp add: pack_outputs_fields ex_E_current)
  have s: "sanitize_E_bat (E_bat ex_battery ex_numerics) ! 1 + current_energy ex_battery ! 0 = Fin 540000"
    by (simp add: ex_E_bat sanitize_E_bat_id) (simp add: ex_battery_def fl_arith)
  from C4_current_energy_upper_bound [OF r k m' c] r m s
  show ?thesis by (simp add: pack_outputs_fields ex_E_current)
qed

text \<open>
  C5 (the code departs from the claim). The claim: the turbulent constants are selected
  exactly when every Reynolds number exceeds 1000. The code compares the truth value of
  \<^verbatim>\<open>all(Re_max)\<close>, which counts as 0 or 1, with 1000: with the Reynolds numbers 2000 and
  3000, both above the threshold, the laminar constants \<open>C = 0.51\<close>, \<open>m = 0.5\<close> are selected.
\<close>

theorem C5_laminar_constants_above_threshold:
  "list_all (\<lambda>r. Fin 1000 < r) [Fin 2000, Fin 3000] \<and>
   convective_constants [Fin 2000, Fin 3000] (Fin 0.03) (Fin 0.02) = (Fin 0.51, 0.5)"
  by (simp add: convective_constants_def of_py_bool_def)

text \<open>
  C6, the claim as stated fails. The claim: the under-load voltage output is the sample of
  the performance map plus the Thevenin voltage plus \<open>I_cell * R_0_aged\<close>, and the pack-level
  \<open>voltage_under_load\<close> is that value times the number of cells in series. On the example
  cell (one cell in series, initial Thevenin voltage 1 V) the outputs
  \<open>cell_voltage_under_load\<close> and \<open>voltage_under_load\<close> at the first control point are the
  sample, 3.9 V, while the sum of the claim is 4.9 V.
\<close>

theorem C6_under_load_voltage_is_map_sample:
  "\<not> isl (LiNiMnCo_charge ex_externals ex_battery ex_numerics) \<and>
   cell_voltage_under_load (projr (LiNiMnCo_charge ex_externals ex_battery ex_numerics)) ! 0 = Fin 3.9 \<and>
   voltage_under_load (projr (LiNiMnCo_charge ex_externals ex_battery ex_numerics)) ! 0 = Fin 3.9 \<and>
   projr (V_ul_map ex_battery ex_numerics) ! 0
     + projr (V_Th ex_externals ex_battery ex_numerics) ! 0
     + I_cell ex_battery ! 0 * R_0_aged ex_battery ex_numerics ! 0 = Fin 4.9"
proof -
  from ex_charge obtain x where
    x: "V_Th ex_externals ex_battery ex_numerics = Inr x" and
    "LiNiMnCo_charge ex_externals ex_battery ex_numerics =
       Inr (pack_outputs ex_externals ex_battery ex_numerics [Fin 3.9, Fin 4.2, Fin 3.6] x)"
    by blast
  moreover have "x ! 0 = V_th0 ex_battery"
    using x unfolding V_Th_def by (rule compute_thevenin_votlage_hd)
  moreover have "V_th0 ex_battery = Fin 1" "n_series ex_battery = 1"
    by (simp_all add: V_th0_def ex_battery_def n_series_def fl_arith)
  moreover have "R_0_aged ex_battery ex_numerics ! 0 = Fin 0.0947175"
    by (simp add: R_0_aged_def R_0_def ex_SOC_old fl_arith power_divide) (simp add: ex_battery_def fl_arith)
  ultimately show ?thesis
    by (simp add: pack_outputs_fields ex_SOC_new V_ul_masked_def ex_V_ul_map ex_I_cell fl_arith)
qed

text \<open>
  C6, amended. The sum of the sample looked up from the performance map, the Thevenin
  voltage and \<open>I_cell * R_0_aged\<close> is written to \<open>cell_voltage_open_circuit\<close> and, times the
  number of cells in series, to \<open>voltage_open_circuit\<close>, at every control point of every
  call that returns. At the control points where the recomputed state of charge, the
  updated current energy over \<open>max_energy\<close>, is not negative, the sample itself is the
  under-load voltage: it is written to \<open>cell_voltage_under_load\<close> and, times the number of
  cells in series, to \<open>voltage_under_load\<close>. Nothing is said of the under-load voltage at
  the points where the recomputed state of charge is negative (see C8).
\<close>

theorem C6_open_circuit_voltage:
  assumes "LiNiMnCo_charge ext b num = Inr out"
    and "k < length (time_control_points num)"
  shows "cell_voltage_open_circuit out ! k =
           discharge_performance_map_Voltage b (pts b num) ! k ! 1
             + projr (V_Th ext b num) ! k + cell_current out ! k * R_0_aged b num ! k \<and>
         voltage_open_circuit out ! k = cell_voltage_open_circuit out ! k * of_py_int (n_series b) \<and>
         (\<not> current_energy out ! k / max_energy b < Fin 0 \<longrightarrow>
            cell_voltage_under_load out ! k = discharge_performance_map_Voltage b (pts b num) ! k ! 1 \<and>
            voltage_under_load out ! k = cell_voltage_under_load out ! k * of_py_int (n_series b))"
proof -
  from charge_InrD [OF assms(1)] obtain V_ul x where
    w: "well_shaped b num" and v: "V_ul_map b num = Inr V_ul" and x: "V_Th ext b num = Inr x"
    and out: "out = pack_outputs ext b num V_ul x"
    by blast
  note N = N_lengths [OF w]
  have lx: "length x = length (time_control_points num)"
    using x unfolding V_Th_def by (rule compute_thevenin_votlage_length)
  have V: "V_ul = map (\<lambda>r. r ! 1) (discharge_performance_map_Voltage b (pts b num))"
    using v by (rule V_ul_map_nth)
  then have lv: "length V_ul = length (time_control_points num)" by (simp add: N)
  have m: "V_ul_masked b num V_ul = V_ul"
    by (rule V_ul_masked_id) (simp add: lv N)
  have vk: "V_ul ! k = discharge_performance_map_Voltage b (pts b num) ! k ! 1"
    using assms(2) by (simp add: V N)
  have "V_oc b num V_ul x ! k = V_ul ! k + x ! k + I_cell b ! k * R_0_aged b num ! k"
    using assms(2) by (simp add: V_oc_def lv lx length_steps length_circuit N)
  moreover have "length (V_oc b num V_ul x) = length (time_control_points num)"
    by (simp add: V_oc_def lv lx length_steps length_circuit N)
  ultimately show ?thesis
    using assms(2) by (simp add: out pack_outputs_fields m vk x lv)
qed

text \<open>
  C6, witness: the first control point of the example cell at rest, where the recomputed
  state of charge is 0.5.
\<close>

theorem C6_open_circuit_voltage_witness:
  "\<not> isl (LiNiMnCo_charge ex_externals ex_battery ex_numerics) \<and>
   \<not> current_energy (projr (LiNiMnCo_charge ex_externals ex_battery ex_numerics)) ! 0
       / max_energy ex_battery < Fin 0 \<and>
   cell_voltage_open_circuit (projr (LiNiMnCo_charge ex_externals ex_battery ex_numerics)) ! 0 = Fin 4.9 \<and>
   voltage_open_circuit (projr (LiNiMnCo_charge ex_externals ex_battery ex_numerics)) ! 0 = Fin 4.9 \<and>
   cell_voltage_under_load (projr (LiNiMnCo_charge ex_externals ex_battery ex_numerics)) ! 0 = Fin 3.9 \<and>
   voltage_under_load (projr (LiNiMnCo_charge ex_externals ex_battery ex_numerics)) ! 0 = Fin 3.9"
proof -
  from ex_charge obtain x where
    x: "V_Th ex_externals ex_battery ex_numerics = Inr x" and
    r: "LiNiMnCo_charge ex_externals ex_battery ex_numerics =
       Inr (pack_outputs ex_externals ex_battery ex_numerics [Fin 3.9, Fin 4.2, Fin 3.6] x)"
    by blast
  have k: "0 < length (time_control_points ex_numerics)" by (simp add: ex_numerics_def)
  have "x ! 0 = V_th0 ex_battery"
    using x unfolding V_Th_def by (rule compute_thevenin_votlage_hd)
  moreover have "V_th0 ex_battery = Fin 1" "n_series ex_battery = 1"
    by (simp_all add: V_th0_def ex_battery_def n_series_def fl_arith)
  moreover have "R_0_aged ex_battery ex_numerics ! 0 = Fin 0.0947175"
    by (simp add: R_0_aged_def R_0_def ex_SOC_old fl_arith power_divide) (simp add: ex_battery_def fl_arith)
  moreover have "discharge_performance_map_Voltage ex_battery (pts ex_battery ex_numerics) ! 0 ! 1 = Fin 3.9"
    using V_ul_map_nth [OF ex_V_ul_map] N_lengths(4) [OF ex_well_shaped] k
    by (metis (no_types, lifting) nth_Cons_0 nth_map)
  moreover have "max_energy ex_battery = Fin 360000" by (simp add: ex_battery_def)
  ultimately show ?thesis
    using C6_open_circuit_voltage [OF r k] r x
    by (simp add: pack_outputs_fields ex_I_cell ex_E_current fl_arith)
qed

text \<open>
  C7, the claim as stated fails. The claim: the provisional and the final state of charge
  and depth of discharge lie in \<open>[0, 1]\<close> at every control point, for any finite power
  series and prior energy. On the example cell at rest with the finite power series
  \<open>1e306\<close> W, \<open>-1e306\<close> W, 0 W the integrated energy overflows: at the second control point
  it is \<open>inf - inf = NaN\<close>, which both masks leave, and the provisional and the final state
  of charge and depth of discharge are NaN.
\<close>

theorem C7_state_of_charge_overflow:
  "finite_energy_inputs overflow_battery ex_numerics \<and>
   \<not> isl (LiNiMnCo_charge ex_externals overflow_battery ex_numerics) \<and>
   SOC_old overflow_battery ex_numerics ! 1 = NaN \<and>
   DOD_old overflow_battery ex_numerics ! 1 = NaN \<and>
   state_of_charge (projr (LiNiMnCo_charge ex_externals overflow_battery ex_numerics)) ! 1 = NaN \<and>
   depth_of_discharge (projr (LiNiMnCo_charge ex_externals overflow_battery ex_numerics)) ! 1 = NaN \<and>
   \<not> in_range 0 1 (state_of_charge (projr (LiNiMnCo_charge ex_externals overflow_battery ex_numerics)) ! 1)"
proof -
  from overflow_charge obtain V_ul x where
    "LiNiMnCo_charge ex_externals overflow_battery ex_numerics =
       Inr (pack_outputs ex_externals overflow_battery ex_numerics V_ul x)"
    by blast
  then show ?thesis
    by (simp add: overflow_finite_energy_inputs pack_outputs_fields overflow_SOC_old
        overflow_SOC_new DOD_old_def DOD_new_def in_range_def minus_fl_def)
qed

text \<open>
  C7, amended. At every control point where the provisional energy over \<open>max_energy\<close> is not
  NaN, the provisional state of charge and depth of discharge (\<open>SOC_old\<close>, \<open>DOD_old\<close>) lie in
  \<open>[0, 1]\<close>; and at every control point where the updated current energy over \<open>max_energy\<close>
  is not NaN, the state of charge and the depth of discharge written to the outputs lie in
  \<open>[0, 1]\<close>. This holds whatever the energy is otherwise: above \<open>max_energy\<close>, below zero or
  infinite.
\<close>

theorem C7_state_of_charge_in_unit_interval:
  assumes "LiNiMnCo_charge ext b num = Inr out"
    and "k < length (time_control_points num)"
  shows "(initial_discharge_state b num ! k / max_energy b \<noteq> NaN \<longrightarrow>
            in_range 0 1 (SOC_old b num ! k) \<and> in_range 0 1 (DOD_old b num ! k)) \<and>
         (current_energy out ! k / max_energy b \<noteq> NaN \<longrightarrow>
            in_range 0 1 (state_of_charge out ! k) \<and> in_range 0 1 (depth_of_discharge out ! k))"
proof -
  from charge_InrD [OF assms(1)] obtain V_ul x where
    w: "well_shaped b num" and out: "out = pack_outputs ext b num V_ul x"
    by blast
  from assms(2) N_lengths(1) [OF w] have k: "k < length (time_integrate num)" by simp
  have a: "in_range 0 1 (SOC_old b num ! k) \<and> in_range 0 1 (DOD_old b num ! k)"
    if n: "initial_discharge_state b num ! k / max_energy b \<noteq> NaN"
  proof -
    have "in_range 0 1 (SOC_old b num ! k)"
      unfolding SOC_old_def using k n by (intro clamped_nth) (simp_all add: length_steps)
    moreover from this have "in_range 0 1 (Fin 1 - SOC_old b num ! k)"
      by (rule one_minus_in_range)
    ultimately show ?thesis using k by (simp add: DOD_old_def length_steps)
  qed
  have b: "in_range 0 1 (SOC_new b num ! k) \<and> in_range 0 1 (DOD_new b num ! k)"
    if n: "E_current b num ! k / max_energy b \<noteq> NaN"
  proof -
    have "in_range 0 1 (SOC_new b num ! k)"
      unfolding SOC_new_def using k n by (intro clamped_nth) (simp_all add: length_steps2)
    moreover from this have "in_range 0 1 (Fin 1 - SOC_new b num ! k)"
      by (rule one_minus_in_range)
    ultimately show ?thesis using k by (simp add: DOD_new_def length_steps2)
  qed
  from a b show ?thesis by (simp add: out pack_outputs_fields)
qed

text \<open>
  C7, witness: the third control point of the example cell at rest, where the energy over
  \<open>max_energy\<close> is \<open>-0.5\<close> before both pairs of masks.
\<close>

theorem C7_state_of_charge_in_unit_interval_witness:
  "\<not> isl (LiNiMnCo_charge ex_externals ex_battery ex_numerics) \<and>
   initial_discharge_state ex_battery ex_numerics ! 2 / max_energy ex_battery = Fin (- 0.5) \<and>
   current_energy (projr (LiNiMnCo_charge ex_externals ex_battery ex_numerics)) ! 2
     / max_energy ex_battery = Fin (- 0.5) \<and>
   in_range 0 1 (SOC_old ex_battery ex_numerics ! 2) \<and>
   in_range 0 1 (DOD_old ex_battery ex_numerics ! 2) \<and>
   in_range 0 1 (state_of_charge (projr (LiNiMnCo_charge ex_externals ex_battery ex_numerics)) ! 2) \<and>
   in_range 0 1 (depth_of_discharge (projr (LiNiMnCo_charge ex_externals ex_battery ex_numerics)) ! 2)"
proof -
  from ex_charge obtain x where
    r: "LiNiMnCo_charge ex_externals ex_battery ex_numerics =
       Inr (pack_outputs ex_externals ex_battery ex_numerics [Fin 3.9, Fin 4.2, Fin 3.6] x)"
    by blast
  have k: "2 < length (time_control_points ex_numerics)" by (simp add: ex_numerics_def)
  have i: "initial_discharge_state ex_battery ex_numerics = [Fin 180000, Fin 540000, Fin (- 180000)]"
    by (simp add: initial_discharge_state_def np_dot_def ex_battery_def ex_numerics_def fl_arith)
  have m: "max_energy ex_battery = Fin 360000" by (simp add: ex_battery_def)
  from C7_state_of_charge_in_unit_interval [OF r k] r i m
  show ?thesis by (simp add: pack_outputs_fields ex_E_current fl_arith)
qed

text \<open>
  C8 (the code departs from the claim). The claim: where the recomputed state of charge is
  negative, the under-load voltage output is zero. The code tests \<^verbatim>\<open>SOC_new < 0\<close> after it has
  set the negative entries of \<^verbatim>\<open>SOC_new\<close> to zero, so the mask is empty (lemma
  \<open>V_ul_masked_id\<close>). On the example cell at rest the recomputed state of charge at the third
  control point is \<open>-0.5\<close> before the clamp, the state of charge written out is 0, and the
  under-load voltage outputs are the sample of the performance map, 3.6 V.
\<close>

theorem C8_voltage_not_zeroed:
  "\<not> isl (LiNiMnCo_charge ex_externals ex_battery ex_numerics) \<and>
   E_current ex_battery ex_numerics ! 2 / max_energy ex_battery = Fin (- 0.5) \<and>
   state_of_charge (projr (LiNiMnCo_charge ex_externals ex_battery ex_numerics)) ! 2 = Fin 0 \<and>
   cell_voltage_under_load (projr (LiNiMnCo_charge ex_externals ex_battery ex_numerics)) ! 2 = Fin 3.6 \<and>
   voltage_under_load (projr (LiNiMnCo_charge ex_externals ex_battery ex_numerics)) ! 2 = Fin 3.6"
proof -
  from ex_charge obtain x where
    "LiNiMnCo_charge ex_externals ex_battery ex_numerics =
       Inr (pack_outputs ex_externals ex_battery ex_numerics [Fin 3.9, Fin 4.2, Fin 3.6] x)"
    by blast
  moreover have "max_energy ex_battery = Fin 360000" "n_series ex_battery = 1"
    by (simp_all add: ex_battery_def n_series_def)
  ultimately show ?thesis
    by (simp add: pack_outputs_fields ex_E_current ex_SOC_new V_ul_masked_def fl_arith)
qed

text \<open>
  C9. At every control point, when the state of charge is a number \<open>s\<close> in \<open>[0, 1]\<close> the
  depth of discharge is \<open>1 - s\<close>: for the provisional pair \<open>SOC_old\<close>, \<open>DOD_old\<close> and for the
  pair written to the outputs.
\<close>

theorem C9_depth_of_discharge:
  assumes "LiNiMnCo_charge ext b num = Inr out"
    and "k < length (time_control_points num)"
    and "0 \<le> s" "s \<le> 1"
  shows "(SOC_old b num ! k = Fin s \<longrightarrow> DOD_old b num ! k = Fin (1 - s)) \<and>
         (state_of_charge out ! k = Fin s \<longrightarrow> depth_of_discharge out ! k = Fin (1 - s))"
proof -
  from charge_InrD [OF assms(1)] obtain V_ul x where
    w: "well_shaped b num" and out: "out = pack_outputs ext b num V_ul x"
    by blast
  from assms(2) N_lengths(1) [OF w] have k: "k < length (time_integrate num)" by simp
  have "DOD_old b num ! k = Fin 1 - SOC_old b num ! k"
    using k by (simp add: DOD_old_def length_steps)
  moreover have "DOD_new b num ! k = Fin 1 - SOC_new b num ! k"
    using k by (simp add: DOD_new_def length_steps2)
  moreover have "ovf (1 - s) = Fin (1 - s)"
    by (rule ovf_small) (use assms(3,4) in simp)
  ultimately show ?thesis
    by (simp add: out pack_outputs_fields minus_fl_def)
qed

text \<open>
  C9, witness: the first control point of the example cell at rest, state of charge 0.5.
\<close>

theorem C9_depth_of_discharge_witness:
  "\<not> isl (LiNiMnCo_charge ex_externals ex_battery ex_numerics) \<and>
   SOC_old ex_battery ex_numerics ! 0 = Fin 0.5 \<and> DOD_old ex_battery ex_numerics ! 0 = Fin 0.5 \<and>
   state_of_charge (projr (LiNiMnCo_charge ex_externals ex_battery ex_numerics)) ! 0 = Fin 0.5 \<and>
   depth_of_discharge (projr (LiNiMnCo_charge ex_externals ex_battery ex_numerics)) ! 0 = Fin 0.5"
proof -
  from ex_charge obtain x where
    r: "LiNiMnCo_charge ex_externals ex_battery ex_numerics =
       Inr (pack_outputs ex_externals ex_battery ex_numerics [Fin 3.9, Fin 4.2, Fin 3.6] x)"
    by blast
  have k: "0 < length (time_control_points ex_numerics)" by (simp add: ex_numerics_def)
  have s: "(0::real) \<le> 1 / 2" "(1::real) / 2 \<le> 1" by simp_all
  from C9_depth_of_discharge [OF r k s] r show ?thesis
    by (simp add: pack_outputs_fields ex_SOC_old ex_SOC_new)
qed

text \<open>
  C10, the claim as stated fails. The claim: for every input the cell current is clamped
  into [0 A, 8 A] and the cumulative charge throughput never decreases. On the example
  cell with a current series that is NaN at the second control point the model runs, both
  masks of lines 183-184 leave the NaN, the cell current written out is NaN there, and the
  cumulative charge throughput is NaN from that point on.
\<close>

theorem C10_cell_current_NaN:
  "\<not> isl (LiNiMnCo_charge ex_externals nan_current_battery ex_numerics) \<and>
   cell_current (projr (LiNiMnCo_charge ex_externals nan_current_battery ex_numerics)) ! 1 = NaN \<and>
   \<not> in_range 0 8
       (cell_current (projr (LiNiMnCo_charge ex_externals nan_current_battery ex_numerics)) ! 1) \<and>
   cumulative_cell_charge_throughput
       (projr (LiNiMnCo_charge ex_externals nan_current_battery ex_numerics))
     = [Fin 0, NaN, NaN] \<and>
   \<not> nondecreasing
       (cumulative_cell_charge_throughput
          (projr (LiNiMnCo_charge ex_externals nan_current_battery ex_numerics)))"
proof -
  from nan_current_charge obtain V_ul x where
    "LiNiMnCo_charge ex_externals nan_current_battery ex_numerics =
       Inr (pack_outputs ex_externals nan_current_battery ex_numerics V_ul x)"
    by blast
  then show ?thesis
    by (simp add: pack_outputs_fields nan_current_I_cell nan_current_Q_total in_range_def)
qed

text \<open>
  C10, amended. For a finite current series and a number of parallel cells that is not
  zero, the cell current written to the outputs lies in [0 A, 8 A]; it is the current
  column of the points handed to the performance map, the current of the Thevenin
  integration and the integrand of the charge throughput. With finite control points that
  do not decrease and whose gaps are finite, a positive \<^verbatim>\<open>Units.hr\<close> and a finite prior
  throughput, the cumulative charge throughput starts at \<open>Q_prior[0]\<close> and never decreases
  from one control point to the next. (A gap between two control points that overflows
  is infinite, and with zero current the trapezoid term is then \<open>0 * inf = NaN\<close>: lemma
  \<open>cumtrapz_wide_gap\<close>.)
\<close>

theorem C10_cell_current_clamped:
  assumes "LiNiMnCo_charge ext b num = Inr out"
    and "list_all is_fin (inputs_current (inputs b))" and "n_parallel b \<noteq> 0"
    and "list_all is_fin (time_control_points num)" and "nondecreasing (time_control_points num)"
    and "list_all is_fin (np_diff (time_control_points num))"
    and "Units_hr ext = Fin hr" and "0 < hr"
    and "finite_float (charge_throughput b ! 0)"
  shows "list_all (in_range 0 8) (cell_current out) \<and>
         map (\<lambda>r. r ! 0) (pts b num) = cell_current out \<and>
         V_Th ext b num =
           compute_thevenin_votlage ext (V_th0 b) (cell_current out) (C_Th b num) (R_Th b num) num \<and>
         cumulative_cell_charge_throughput out =
           charge_throughput b ! 0
             # map (\<lambda>c. charge_throughput b ! 0 + c / Units_hr ext)
                 (cumtrapz (cell_current out) (time_control_points num)) \<and>
         cumulative_cell_charge_throughput out ! 0 = charge_throughput b ! 0 \<and>
         nondecreasing (cumulative_cell_charge_throughput out)"
proof -
  from charge_InrD [OF assms(1)] obtain V_ul x where
    w: "well_shaped b num" and out: "out = pack_outputs ext b num V_ul x"
    by blast
  note N = N_lengths [OF w]
  have r: "list_all (in_range 0 8) (I_cell b)"
    using assms(2,3) by (rule I_cell_in_range)
  have "map (\<lambda>r. r ! 0) (pts b num) = I_cell b"
    by (rule nth_equalityI) (simp_all add: pts_def length_map3 nth_map3 length_steps N)
  moreover have "list_all nonneg (np_diff (time_control_points num))"
    using assms(4,5,6) by (rule np_diff_nonneg)
  with r have "list_all nonneg_or_inf (cumtrapz (I_cell b) (time_control_points num)) \<and>
      nondecreasing (cumtrapz (I_cell b) (time_control_points num))"
    by (rule cumtrapz_props)
  then have "nondecreasing (Q_total ext b num)"
    unfolding Q_total_def assms(7) using assms(9,8) by (intro Q_total_nondecreasing) simp_all
  ultimately show ?thesis
    using r by (simp add: out pack_outputs_fields V_Th_def) (simp add: Q_total_def)
qed

text \<open>
  C10, witness: the example cell charged with 10 A per cell, clamped to 8 A; the
  cumulative throughput over the hour is 0, 4, 8 Ah.
\<close>

theorem C10_cell_current_clamped_witness:
  "\<not> isl (LiNiMnCo_charge ex_externals hot_battery ex_numerics) \<and>
   I_cell_unclamped hot_battery = [Fin 10, Fin 10, Fin 10] \<and>
   cell_current (projr (LiNiMnCo_charge ex_externals hot_battery ex_numerics)) = [Fin 8, Fin 8, Fin 8] \<and>
   list_all (in_range 0 8) (cell_current (projr (LiNiMnCo_charge ex_externals hot_battery ex_numerics))) \<and>
   cumulative_cell_charge_throughput (projr (LiNiMnCo_charge ex_externals hot_battery ex_numerics))
     = [Fin 0, Fin 4, Fin 8] \<and>
   nondecreasing
     (cumulative_cell_charge_throughput (projr (LiNiMnCo_charge ex_externals hot_battery ex_numerics)))"
proof -
  from hot_charge obtain V_ul x where
    r: "LiNiMnCo_charge ex_externals hot_battery ex_numerics =
       Inr (pack_outputs ex_externals hot_battery ex_numerics V_ul x)"
    by blast
  have h: "list_all is_fin (inputs_current (inputs hot_battery))" "n_parallel hot_battery \<noteq> 0"
    "list_all is_fin (time_control_points ex_numerics)" "nondecreasing (time_control_points ex_numerics)"
    "list_all is_fin (np_diff (time_control_points ex_numerics))"
    "Units_hr ex_externals = Fin 3600" "(0::real) < 3600"
    "finite_float (charge_throughput hot_battery ! 0)"
    by (simp_all add: hot_battery_def ex_battery_def ex_numerics_def ex_externals_def n_parallel_def
        np_diff_def fl_arith overflow_threshold_pos)
  have u: "I_cell_unclamped hot_battery = [Fin 10, Fin 10, Fin 10]"
    by (simp add: I_cell_unclamped_def n_parallel_def hot_battery_def ex_battery_def fl_arith)
  let ?out = "projr (LiNiMnCo_charge ex_externals hot_battery ex_numerics)"
  from r have o: "LiNiMnCo_charge ex_externals hot_battery ex_numerics = Inr ?out" by simp
  from C10_cell_current_clamped [OF o h]
  have "list_all (in_range 0 8) (cell_current ?out)"
    and "nondecreasing (cumulative_cell_charge_throughput ?out)"
    by blast+
  moreover have "cell_current ?out = [Fin 8, Fin 8, Fin 8]"
    and "cumulative_cell_charge_throughput ?out = [Fin 0, Fin 4, Fin 8]"
    using r by (simp_all add: pack_outputs_fields hot_I_cell hot_Q_total)
  ultimately show ?thesis using r u by simp
qed

end
